theory Spec2Isabelle
  imports Complex_Main
begin

section \<open>Time, strings and the date library\<close>

text \<open>
  A JavaScript \<open>Date\<close> is its epoch value in milliseconds, an \<open>int\<close>. The functions
  of date-fns that read or write local fields (\<open>startOfDay\<close>, \<open>endOfDay\<close>,
  \<open>setHours\<close>, \<open>setMinutes\<close>, \<open>getDay\<close>, \<open>addDays\<close>, \<open>format\<close>) are
  given for a server process whose local zone is UTC, so they are arithmetic on the epoch
  value. The zone conversions of date-fns-tz (\<open>toZonedTime\<close>, \<open>fromZonedTime\<close>) depend on
  the zone database and are parameters of the model (fields of \<open>Env\<close> below).

  A JavaScript number is \<open>NaN\<close>, an infinity or a finite value; every finite value of the
  language is a rational. A \<open>Date\<close> that may be invalid is a \<open>date option\<close>, \<open>None\<close> the
  invalid date: \<open>setHours\<close> and \<open>setMinutes\<close> can produce one, from a number that is not finite
  or from a time value outside the range of \<open>Date\<close> (\<open>timeClip\<close>). They truncate a finite
  number towards zero before they use it.
\<close>

type_synonym date = int

record BusyBlock =
  block_start :: date
  block_end :: date
  calendarId :: string

definition addMinutes :: "date \<Rightarrow> int \<Rightarrow> date" where
  "addMinutes d amount = d + amount * 60000"

definition addDays :: "date \<Rightarrow> int \<Rightarrow> date" where
  "addDays d amount = d + amount * 86400000"

definition isAfter :: "date \<Rightarrow> date \<Rightarrow> bool" where
  "isAfter d dateToCompare = (d > dateToCompare)"

definition isBefore :: "date \<Rightarrow> date \<Rightarrow> bool" where
  "isBefore d dateToCompare = (d < dateToCompare)"

definition startOfDay :: "date \<Rightarrow> date" where
  "startOfDay d = d - d mod 86400000"

definition endOfDay :: "date \<Rightarrow> date" where
  "endOfDay d = d - d mod 86400000 + 86399999"

datatype number = NaN | PosInfinity | NegInfinity | Finite rat

definition trunc :: "rat \<Rightarrow> int" where
  "trunc q = (if q < 0 then \<lceil>q\<rceil> else \<lfloor>q\<rfloor>)"

definition timeClip :: "int \<Rightarrow> date option" where
  "timeClip t = (if \<bar>t\<bar> \<le> 8640000000000000 then Some t else None)"

definition setHours :: "date option \<Rightarrow> number \<Rightarrow> date option" where
  "setHours date hours =
     (case (date, hours) of
        (Some d, Finite h) \<Rightarrow> timeClip (d + (trunc h - (d mod 86400000) div 3600000) * 3600000)
      | _ \<Rightarrow> None)"

definition setMinutes :: "date option \<Rightarrow> number \<Rightarrow> date option" where
  "setMinutes date minutes =
     (case (date, minutes) of
        (Some d, Finite m) \<Rightarrow> timeClip (d + (trunc m - (d mod 3600000) div 60000) * 60000)
      | _ \<Rightarrow> None)"

definition getDay :: "date \<Rightarrow> int" where
  "getDay d = (d div 86400000 + 4) mod 7"

text \<open>\<open>format(date, 'HH:mm')\<close>: two-digit hours and minutes of the local fields.\<close>

definition digitChar :: "nat \<Rightarrow> char" where
  "digitChar n = ''0123456789'' ! n"

definition pad2 :: "int \<Rightarrow> string" where
  "pad2 n = [digitChar (nat (n div 10)), digitChar (nat (n mod 10))]"

definition formatHHmm :: "date \<Rightarrow> string" where
  "formatHHmm d = pad2 ((d mod 86400000) div 3600000) @ '':'' @ pad2 ((d mod 3600000) div 60000)"

text \<open>Decimal rendering of a number inside a template string (\<open>${Date.now()}\<close>).\<close>

fun showNat :: "nat \<Rightarrow> string" where
  "showNat n = (if n < 10 then [digitChar n] else showNat (n div 10) @ [digitChar (n mod 10)])"

definition showInt :: "int \<Rightarrow> string" where
  "showInt i = (if i < 0 then ''-'' @ showNat (nat (- i)) else showNat (nat i))"

text \<open>
  The relational operators of JavaScript on two strings compare code units from the left;
  a proper prefix is smaller.
\<close>

fun js_string_less :: "string \<Rightarrow> string \<Rightarrow> bool" where
  "js_string_less [] [] = False"
| "js_string_less [] (y # ys) = True"
| "js_string_less (x # xs) [] = False"
| "js_string_less (x # xs) (y # ys) =
     (if (of_char x :: nat) < of_char y then True
      else if (of_char y :: nat) < of_char x then False
      else js_string_less xs ys)"

text \<open>\<open>String.prototype.split\<close> with a separator of one character.\<close>

fun splitOn :: "char \<Rightarrow> string \<Rightarrow> string list" where
  "splitOn sep [] = [[]]"
| "splitOn sep (c # cs) =
     (if c = sep then [] # splitOn sep cs
      else (case splitOn sep cs of [] \<Rightarrow> [[c]] | p # ps \<Rightarrow> (c # p) # ps))"

text \<open>
  The \<open>while (true)\<close> loop of \<open>generateDayCandidateSlots\<close>, on valid dates. It leaves only
  through \<open>break\<close>, so it is a partial function: \<open>None\<close> is the run that never leaves the
  loop (a slot interval that is not positive).
\<close>

partial_function (option) candLoop ::
  "date \<Rightarrow> date \<Rightarrow> int \<Rightarrow> int \<Rightarrow> (date \<times> date) list \<Rightarrow> (date \<times> date) list option" where
  "candLoop currentSlotStart workingDayEnd duration slotInterval slots =
     (let slotEnd = addMinutes currentSlotStart duration in
      if isAfter slotEnd workingDayEnd then Some slots
      else candLoop (addMinutes currentSlotStart slotInterval) workingDayEnd duration slotInterval
             (slots @ [(currentSlotStart, slotEnd)]))"

text \<open>
  \<open>areIntervalsOverlapping\<close> of date-fns (version 3, the one the zone functions used here
  belong to): each interval's end points are ordered first, and the comparison is strict.
\<close>

definition areIntervalsOverlapping :: "date \<times> date \<Rightarrow> date \<times> date \<Rightarrow> bool" where
  "areIntervalsOverlapping intervalLeft intervalRight =
     (let leftStartTime = min (fst intervalLeft) (snd intervalLeft);
          leftEndTime = max (fst intervalLeft) (snd intervalLeft);
          rightStartTime = min (fst intervalRight) (snd intervalRight);
          rightEndTime = max (fst intervalRight) (snd intervalRight)
      in leftStartTime < rightEndTime \<and> rightStartTime < leftEndTime)"

section \<open>Data model\<close>

text \<open>
  The rows of the store and the records passed between the modules. Field names follow the
  source; a prefix is added where two records share a name. A relation that the source
  reads through \<open>include\<close> is either embedded (\<open>et_user\<close>) or looked up by key.
  The working hours of an event type are held as the list that \<open>parseWorkingHours\<close>
  yields from the stored JSON.
\<close>

datatype BookingStatus = PENDING | CONFIRMED | CANCELLED | COMPLETED

datatype LocationType = GOOGLE_MEET | ZOOM | PHONE | IN_PERSON | CUSTOM

datatype error =
    EventTypeNotFound
  | ConnectedAccountNotFound
  | TokenRefreshFailed
  | GoogleApiError

record WorkingHours =
  wh_day :: int
  wh_start :: string
  wh_end :: string

record TimeSlot =
  slot_start :: date
  slot_end :: date
  available :: bool

record User =
  user_id :: string
  user_name :: "string option"
  user_email :: "string option"
  user_timezone :: string

record EventType =
  et_id :: string
  et_userId :: string
  et_user :: User
  et_name :: string
  et_isActive :: bool
  et_duration :: int
  et_bufferBefore :: int
  et_bufferAfter :: int
  et_minimumNotice :: int
  et_schedulingWindow :: int
  et_slotInterval :: int
  et_workingHours :: "WorkingHours list"
  et_treatTentativeAsBusy :: bool
  et_includeAllDayEvents :: bool
  et_requiresConfirmation :: bool
  et_locationType :: LocationType
  et_locationValue :: "string option"

record EventTypeConfig =
  userId :: string
  duration :: int
  bufferBefore :: int
  bufferAfter :: int
  minimumNotice :: int
  schedulingWindow :: int
  slotInterval :: int
  workingHours :: "WorkingHours list"
  treatTentativeAsBusy :: bool
  includeAllDayEvents :: bool
  timezone :: string

record Booking =
  b_id :: string
  uid :: string
  b_userId :: string
  b_eventTypeId :: string
  startTime :: date
  endTime :: date
  b_timezone :: string
  attendeeName :: string
  attendeeEmail :: string
  attendeePhone :: "string option"
  attendeeCompany :: "string option"
  attendeeNotes :: "string option"
  customResponses :: "(string \<times> string) list option"
  idempotencyKey :: "string option"
  status :: BookingStatus
  googleEventId :: "string option"
  b_googleCalendarId :: "string option"
  meetingUrl :: "string option"

record ConnectedAccount =
  acc_id :: string
  accessToken :: string
  refreshToken :: string
  expiresAt :: date
  isValid :: bool

record Calendar =
  cal_id :: string
  cal_userId :: string
  connectedAccountId :: string
  googleCalendarId :: string
  isSelected :: bool

record EventTypeCalendar =
  etc_eventTypeId :: string
  etc_calendarId :: string
  isDestination :: bool

record Credentials =
  access_token :: "string option"
  refresh_token :: "string option"
  expiry_date :: "date option"

record CalendarEventData =
  summary :: string
  description :: string
  ev_start :: date
  ev_end :: date
  ev_timezone :: string
  attendees :: "(string option \<times> string option) list"
  location :: "string option"
  conferenceData :: bool

record BookingEmailData =
  em_attendeeName :: string
  em_attendeeEmail :: string
  hostName :: string
  hostEmail :: "string option"
  eventTypeName :: string
  em_startTime :: date
  em_endTime :: date
  em_timezone :: string
  em_meetingUrl :: "string option"
  em_location :: "string option"
  bookingUid :: string

record BookingInput =
  in_eventTypeId :: string
  in_startTime :: string
  in_timezone :: string
  in_attendeeName :: string
  in_attendeeEmail :: string
  in_attendeePhone :: "string option"
  in_attendeeCompany :: "string option"
  in_attendeeNotes :: "string option"
  in_customResponses :: "(string \<times> string) list option"
  in_idempotencyKey :: "string option"

record RateLimitEntry =
  count :: int
  resetAt :: date

record RateLimitOptions =
  windowMs :: int
  rl_max :: int

record RateLimitResult =
  success :: bool
  remaining :: int
  res_resetAt :: date

text \<open>
  \<open>Env\<close> collects what lies outside the repository: the zone database, the conversion of
  a string to a number that the language provides (\<open>Number\<close>), the encryption
  module, the calendar provider (token refresh, free/busy query, event insertion; \<open>None\<close>
  is a rejected call), the format checks of the validation library, random identifiers,
  the mailer (\<open>False\<close> is a rejected send), and the unique indexes of the database schema
  (\<open>uniqueConstraintFails rows row\<close>: inserting \<open>row\<close> into \<open>rows\<close> violates one).
  \<open>World\<close> is the mutable state: the clock, the tables, the rate limiter's map and the
  lines written with \<open>console.error\<close>. The clock is frozen during one operation.
\<close>

record Env =
  toZonedTime :: "date \<Rightarrow> string \<Rightarrow> date"
  fromZonedTime :: "date \<Rightarrow> string \<Rightarrow> date"
  Number :: "string \<Rightarrow> number"
  encrypt :: "string \<Rightarrow> string"
  decrypt :: "string \<Rightarrow> string"
  hashString :: "string \<Rightarrow> string"
  refreshAccessToken :: "Credentials \<Rightarrow> Credentials option"
  freebusyQuery :: "Credentials \<Rightarrow> string list \<Rightarrow> date \<Rightarrow> date
                      \<Rightarrow> (string \<times> (date \<times> date) list) list option"
  eventsInsert :: "Credentials \<Rightarrow> string \<Rightarrow> CalendarEventData
                      \<Rightarrow> (string \<times> string option) option"
  isDatetime :: "string \<Rightarrow> bool"
  isEmail :: "string \<Rightarrow> bool"
  parseDate :: "string \<Rightarrow> date"
  uuidv4 :: string
  cuid :: string
  sendBookingConfirmationEmail :: "BookingEmailData \<Rightarrow> bool"
  sendHostNotificationEmail :: "BookingEmailData \<Rightarrow> bool"
  uniqueConstraintFails :: "Booking list \<Rightarrow> Booking \<Rightarrow> bool"

record World =
  clock :: date
  eventTypes :: "EventType list"
  bookings :: "Booking list"
  calendars :: "Calendar list"
  connectedAccounts :: "ConnectedAccount list"
  eventTypeCalendars :: "EventTypeCalendar list"
  rateLimitStore :: "string \<rightharpoonup> RateLimitEntry"
  consoleErrors :: "string list"

section \<open>Interval algebra\<close>

text \<open>
  \<open>isSlotBusy\<close> and \<open>mergeBusyBlocks\<close> of the availability module. The merge loop keeps
  the array \<open>merged\<close> and extends its last element in place; \<open>sort_key\<close> is a stable
  insertion sort, as \<open>Array.prototype.sort\<close> is stable.
\<close>

definition isSlotBusy :: "date \<Rightarrow> date \<Rightarrow> BusyBlock list \<Rightarrow> int \<Rightarrow> int \<Rightarrow> bool" where
  "isSlotBusy slotStart slotEnd busyBlocks bufBefore bufAfter =
     (let slotWithBufferStart = addMinutes slotStart (- bufBefore);
          slotWithBufferEnd = addMinutes slotEnd bufAfter
      in list_ex (\<lambda>block. areIntervalsOverlapping
                    (slotWithBufferStart, slotWithBufferEnd)
                    (block_start block, block_end block)) busyBlocks)"

fun mergeLoop :: "BusyBlock list \<Rightarrow> BusyBlock list \<Rightarrow> BusyBlock list" where
  "mergeLoop merged [] = merged"
| "mergeLoop merged (current # rest) =
     (let lst = last merged in
      if block_start current \<le> block_end lst then
        (if block_end current > block_end lst
         then mergeLoop (butlast merged @ [lst\<lparr>block_end := block_end current\<rparr>]) rest
         else mergeLoop merged rest)
      else mergeLoop (merged @ [current]) rest)"

definition mergeBusyBlocks :: "BusyBlock list \<Rightarrow> BusyBlock list" where
  "mergeBusyBlocks blocks =
     (if length blocks = 0 then []
      else (let sorted = sort_key block_start blocks
            in mergeLoop [hd sorted] (tl sorted)))"

section \<open>Connected accounts and the free/busy provider\<close>

text \<open>
  \<open>getAuthenticatedClient\<close>, \<open>getFreeBusy\<close>, \<open>getCompositeBusy\<close> and
  \<open>createCalendarEvent\<close> of the calendar module. An exception is the \<open>Inl\<close> branch of the
  result; the updated store is returned beside it. \<open>groupByAccount\<close> is the loop that
  fills the insertion-ordered map \<open>calendarsByAccount\<close>, and \<open>fetchAll\<close> is the fan-out
  over its entries with the \<open>catch\<close> handler of each promise; the promises touch disjoint
  account rows, so they are run in map order. The listener that \<open>getAuthenticatedClient\<close>
  registers for refreshed tokens writes the two columns that the explicit update after a
  refresh writes; the model performs that write once.
\<close>

definition updateAccount ::
  "string \<Rightarrow> (ConnectedAccount \<Rightarrow> ConnectedAccount) \<Rightarrow> World \<Rightarrow> World" where
  "updateAccount accountId f w =
     w\<lparr>connectedAccounts := map (\<lambda>a. if acc_id a = accountId then f a else a) (connectedAccounts w)\<rparr>"

definition getAuthenticatedClient :: "Env \<Rightarrow> World \<Rightarrow> string \<Rightarrow> (error + Credentials) \<times> World" where
  "getAuthenticatedClient E w accountId =
     (case find (\<lambda>a. acc_id a = accountId) (connectedAccounts w) of
        None \<Rightarrow> (Inl ConnectedAccountNotFound, w)
      | Some account \<Rightarrow>
          (let client = \<lparr>access_token = Some (decrypt E (accessToken account)),
                         refresh_token = Some (decrypt E (refreshToken account)),
                         expiry_date = Some (expiresAt account)\<rparr>
           in if expiresAt account < clock w + 60000 then
                (case refreshAccessToken E client of
                   None \<Rightarrow>
                     (Inl TokenRefreshFailed,
                      updateAccount accountId (\<lambda>a. a\<lparr>isValid := False\<rparr>) w)
                 | Some credentials \<Rightarrow>
                     (case access_token credentials of
                        None \<Rightarrow> (Inr credentials, w)
                      | Some token \<Rightarrow>
                          (Inr credentials,
                           updateAccount accountId
                             (\<lambda>a. a\<lparr>accessToken := encrypt E token,
                                     expiresAt := (case expiry_date credentials of
                                                     None \<Rightarrow> clock w + 3600000
                                                   | Some e \<Rightarrow> if e = 0 then clock w + 3600000 else e)\<rparr>)
                             w)))
              else (Inr client, w)))"

definition getFreeBusy ::
  "Env \<Rightarrow> World \<Rightarrow> string \<Rightarrow> string list \<Rightarrow> date \<Rightarrow> date \<Rightarrow> (error + BusyBlock list) \<times> World" where
  "getFreeBusy E w accountId calendarIds timeMin timeMax =
     (case getAuthenticatedClient E w accountId of
        (Inl e, w') \<Rightarrow> (Inl e, w')
      | (Inr oauth2Client, w') \<Rightarrow>
          (case freebusyQuery E oauth2Client calendarIds timeMin timeMax of
             None \<Rightarrow> (Inl GoogleApiError, w')
           | Some cals \<Rightarrow>
               (Inr (concat (map (\<lambda>(cid, busy).
                        map (\<lambda>(s, e). \<lparr>block_start = s, block_end = e, calendarId = cid\<rparr>) busy)
                      cals)),
                w')))"

fun groupByAccount :: "Calendar list \<Rightarrow> (string \<times> string list) list \<Rightarrow> (string \<times> string list) list" where
  "groupByAccount [] calendarsByAccount = calendarsByAccount"
| "groupByAccount (cal # cals) calendarsByAccount =
     (let accountId = connectedAccountId cal;
          m = (if accountId \<in> set (map fst calendarsByAccount) then calendarsByAccount
               else calendarsByAccount @ [(accountId, [])])
      in groupByAccount cals
           (map (\<lambda>(a, ids). if a = accountId then (a, ids @ [googleCalendarId cal]) else (a, ids)) m))"

fun fetchAll ::
  "Env \<Rightarrow> World \<Rightarrow> (string \<times> string list) list \<Rightarrow> date \<Rightarrow> date \<Rightarrow> BusyBlock list list \<times> World" where
  "fetchAll E w [] timeMin timeMax = ([], w)"
| "fetchAll E w ((accountId, calIds) # groups) timeMin timeMax =
     (let (r, w1) =
            (case getFreeBusy E w accountId calIds timeMin timeMax of
               (Inl e, w') \<Rightarrow>
                 ([], w'\<lparr>consoleErrors := consoleErrors w'
                            @ [''Error fetching free/busy for account '' @ accountId @ '':'']\<rparr>)
             | (Inr blocks, w') \<Rightarrow> (blocks, w'));
          (rs, w2) = fetchAll E w1 groups timeMin timeMax
      in (r # rs, w2))"

definition selectedCalendars :: "World \<Rightarrow> string \<Rightarrow> Calendar list" where
  "selectedCalendars w user =
     filter (\<lambda>c. cal_userId c = user \<and> isSelected c
                \<and> (case find (\<lambda>a. acc_id a = connectedAccountId c) (connectedAccounts w) of
                      None \<Rightarrow> False
                    | Some a \<Rightarrow> isValid a))
            (calendars w)"

definition getCompositeBusy ::
  "Env \<Rightarrow> World \<Rightarrow> string \<Rightarrow> date \<Rightarrow> date \<Rightarrow> BusyBlock list \<times> World" where
  "getCompositeBusy E w user timeMin timeMax =
     (let cals = selectedCalendars w user;
          calendarsByAccount = groupByAccount cals [];
          (results, w') = fetchAll E w calendarsByAccount timeMin timeMax
      in (concat results, w'))"

definition createCalendarEvent ::
  "Env \<Rightarrow> World \<Rightarrow> string \<Rightarrow> string \<Rightarrow> CalendarEventData
     \<Rightarrow> (error + string \<times> string option) \<times> World" where
  "createCalendarEvent E w accountId calId eventData =
     (case getAuthenticatedClient E w accountId of
        (Inl e, w') \<Rightarrow> (Inl e, w')
      | (Inr oauth2Client, w') \<Rightarrow>
          (case eventsInsert E oauth2Client calId eventData of
             None \<Rightarrow> (Inl GoogleApiError, w')
           | Some (eventId, videoUri) \<Rightarrow>
               (Inr (eventId, (case videoUri of None \<Rightarrow> None
                               | Some u \<Rightarrow> if u = [] then None else Some u)),
                w')))"

section \<open>Availability engine\<close>

text \<open>
  \<open>parseTimeString\<close>, \<open>generateDayCandidateSlots\<close>, \<open>generateAvailableSlots\<close> and
  \<open>isSlotAvailable\<close>. \<open>parseTimeString\<close> is \<open>time.split(':').map(Number)\<close>, of which the first
  two components are used; a missing second component is \<open>undefined\<close>, which \<open>setMinutes\<close>
  reads as \<open>NaN\<close>. In \<open>generateDayCandidateSlots\<close> the zone conversion of an invalid date is
  an invalid date. When the start or the end of the working day is invalid, the test
  \<open>isAfter(slotEnd, workingDayEnd)\<close> is false at every turn (\<open>addMinutes\<close> keeps a date
  invalid, and no comparison with an invalid date holds), so the loop is never left: the
  value \<open>None\<close>. \<open>keepDaySlots\<close> is the body of the
  \<open>for\<close> loop over a day's candidates (two \<open>continue\<close> guards and the busy test), and
  \<open>dayLoop\<close> the \<open>while\<close> loop over days. \<open>overlapsExisting\<close> is the \<open>OR\<close> clause of
  the booking query in \<open>isSlotAvailable\<close>.
\<close>

definition getEventTypeConfig :: "World \<Rightarrow> string \<Rightarrow> EventTypeConfig option" where
  "getEventTypeConfig w eventTypeId =
     (case find (\<lambda>et. et_id et = eventTypeId) (eventTypes w) of
        None \<Rightarrow> None
      | Some eventType \<Rightarrow>
          Some \<lparr>userId = et_userId eventType,
                duration = et_duration eventType,
                bufferBefore = et_bufferBefore eventType,
                bufferAfter = et_bufferAfter eventType,
                minimumNotice = et_minimumNotice eventType,
                schedulingWindow = et_schedulingWindow eventType,
                slotInterval = et_slotInterval eventType,
                workingHours = et_workingHours eventType,
                treatTentativeAsBusy = et_treatTentativeAsBusy eventType,
                includeAllDayEvents = et_includeAllDayEvents eventType,
                timezone = user_timezone (et_user eventType)\<rparr>)"

definition parseTimeString :: "Env \<Rightarrow> string \<Rightarrow> number \<times> number" where
  "parseTimeString E time =
     (case map (Number E) (splitOn CHR '':'' time) of
        [] \<Rightarrow> (NaN, NaN)
      | [hours] \<Rightarrow> (hours, NaN)
      | hours # minutes # _ \<Rightarrow> (hours, minutes))"

definition generateDayCandidateSlots ::
  "Env \<Rightarrow> date \<Rightarrow> WorkingHours list \<Rightarrow> int \<Rightarrow> int \<Rightarrow> string
     \<Rightarrow> (date \<times> date) list option" where
  "generateDayCandidateSlots E d whs dur interval adminTimezone =
     (let dayOfWeek = getDay d in
      case find (\<lambda>wh. wh_day wh = dayOfWeek) whs of
        None \<Rightarrow> Some []
      | Some dayConfig \<Rightarrow>
          (let (startHours, startMinutes) = parseTimeString E (wh_start dayConfig);
               (endHours, endMinutes) = parseTimeString E (wh_end dayConfig);
               currentSlotStart =
                 map_option (\<lambda>t. fromZonedTime E t adminTimezone)
                   (setMinutes (setHours (Some (startOfDay d)) startHours) startMinutes);
               workingDayEnd =
                 map_option (\<lambda>t. fromZonedTime E t adminTimezone)
                   (setMinutes (setHours (Some (startOfDay d)) endHours) endMinutes)
           in case (currentSlotStart, workingDayEnd) of
                (Some s, Some e) \<Rightarrow> candLoop s e dur interval []
              | _ \<Rightarrow> None))"

definition effectiveStartDate :: "EventTypeConfig \<Rightarrow> date \<Rightarrow> date \<Rightarrow> date" where
  "effectiveStartDate config now startDate =
     (let minBookingTime = addMinutes now (minimumNotice config)
      in if isAfter startDate minBookingTime then startDate else minBookingTime)"

definition effectiveEndDate :: "EventTypeConfig \<Rightarrow> date \<Rightarrow> date \<Rightarrow> date" where
  "effectiveEndDate config now endDate =
     (let maxBookingDate = addDays now (schedulingWindow config)
      in if isBefore endDate maxBookingDate then endDate else maxBookingDate)"

definition keepDaySlots ::
  "EventTypeConfig \<Rightarrow> date \<Rightarrow> date \<Rightarrow> BusyBlock list \<Rightarrow> (date \<times> date) list \<Rightarrow> TimeSlot list" where
  "keepDaySlots config minBookingTime maxBookingDate mergedBusyBlocks daySlots =
     map (\<lambda>(s, e). \<lparr>slot_start = s, slot_end = e, available = True\<rparr>)
       (filter (\<lambda>(s, e). \<not> isBefore s minBookingTime \<and> \<not> isAfter s maxBookingDate
                  \<and> \<not> isSlotBusy s e mergedBusyBlocks (bufferBefore config) (bufferAfter config))
          daySlots)"

function dayLoop ::
  "Env \<Rightarrow> EventTypeConfig \<Rightarrow> date \<Rightarrow> date \<Rightarrow> BusyBlock list \<Rightarrow> date \<Rightarrow> date \<Rightarrow> TimeSlot list
     \<Rightarrow> TimeSlot list option" where
  "dayLoop E config minBookingTime maxBookingDate mergedBusyBlocks effEnd currentDate slots =
     (if isBefore currentDate (endOfDay effEnd) then
        (case generateDayCandidateSlots E (toZonedTime E currentDate (timezone config))
                (workingHours config) (duration config) (slotInterval config) (timezone config) of
           None \<Rightarrow> None
         | Some daySlots \<Rightarrow>
             dayLoop E config minBookingTime maxBookingDate mergedBusyBlocks effEnd
               (addDays currentDate 1)
               (slots @ keepDaySlots config minBookingTime maxBookingDate mergedBusyBlocks daySlots))
      else Some slots)"
  by pat_completeness auto
termination
  by (relation "measure (\<lambda>(E, config, minB, maxB, merged, effEnd, currentDate, slots).
                   nat (endOfDay effEnd - currentDate))")
     (auto simp: isBefore_def addDays_def)

definition generateAvailableSlots ::
  "Env \<Rightarrow> World \<Rightarrow> string \<Rightarrow> date \<Rightarrow> date \<Rightarrow> string
     \<Rightarrow> ((error + TimeSlot list) \<times> World) option" where
  "generateAvailableSlots E w eventTypeId startDate endDate requestTimezone =
     (case getEventTypeConfig w eventTypeId of
        None \<Rightarrow> Some (Inl EventTypeNotFound, w)
      | Some config \<Rightarrow>
          (let now = clock w;
               minBookingTime = addMinutes now (minimumNotice config);
               maxBookingDate = addDays now (schedulingWindow config);
               effStart = effectiveStartDate config now startDate;
               effEnd = effectiveEndDate config now endDate
           in if isAfter effStart effEnd then Some (Inr [], w)
              else
                (let (busyBlocks, w') = getCompositeBusy E w (userId config) effStart effEnd;
                     existingBookings =
                       filter (\<lambda>b. b_userId b = userId config
                                  \<and> (status b = CONFIRMED \<or> status b = PENDING)
                                  \<and> startTime b \<ge> effStart
                                  \<and> endTime b \<le> effEnd)
                         (bookings w');
                     allBusyBlocks = busyBlocks
                       @ map (\<lambda>b. \<lparr>block_start = startTime b, block_end = endTime b,
                                   calendarId = ''bookings''\<rparr>) existingBookings;
                     mergedBusyBlocks = mergeBusyBlocks allBusyBlocks
                 in map_option (\<lambda>slots. (Inr slots, w'))
                      (dayLoop E config minBookingTime maxBookingDate mergedBusyBlocks effEnd
                         (startOfDay effStart) []))))"

definition overlapsExisting :: "date \<Rightarrow> date \<Rightarrow> Booking \<Rightarrow> bool" where
  "overlapsExisting start en b =
     ((startTime b \<le> start \<and> endTime b > start)
    \<or> (startTime b < en \<and> endTime b \<ge> en)
    \<or> (startTime b \<ge> start \<and> endTime b \<le> en))"

definition isSlotAvailable :: "Env \<Rightarrow> World \<Rightarrow> string \<Rightarrow> date \<Rightarrow> date \<Rightarrow> bool \<times> World" where
  "isSlotAvailable E w eventTypeId start en =
     (case getEventTypeConfig w eventTypeId of
        None \<Rightarrow> (False, w)
      | Some config \<Rightarrow>
          (let now = clock w;
               minBookingTime = addMinutes now (minimumNotice config)
           in if isBefore start minBookingTime then (False, w)
              else
                (let maxBookingDate = addDays now (schedulingWindow config)
                 in if isAfter start maxBookingDate then (False, w)
                    else
                      (let startInAdminTz = toZonedTime E start (timezone config);
                           dayOfWeek = getDay startInAdminTz
                       in case find (\<lambda>wh. wh_day wh = dayOfWeek) (workingHours config) of
                            None \<Rightarrow> (False, w)
                          | Some dayConfig \<Rightarrow>
                              (let timeOfDay = formatHHmm startInAdminTz;
                                   slotEndTime = formatHHmm (toZonedTime E en (timezone config))
                               in if js_string_less timeOfDay (wh_start dayConfig)
                                     \<or> js_string_less (wh_end dayConfig) slotEndTime
                                  then (False, w)
                                  else
                                    (let (busyBlocks, w') =
                                           getCompositeBusy E w (userId config)
                                             (addMinutes start (- bufferBefore config))
                                             (addMinutes en (bufferAfter config));
                                         existingBooking =
                                           find (\<lambda>b. b_userId b = userId config
                                                     \<and> (status b = CONFIRMED \<or> status b = PENDING)
                                                     \<and> overlapsExisting start en b)
                                             (bookings w')
                                     in if existingBooking \<noteq> None then (False, w')
                                        else (\<not> isSlotBusy start en busyBlocks
                                                  (bufferBefore config) (bufferAfter config),
                                              w')))))))"

section \<open>Rate limiter\<close>

text \<open>\<open>rateLimit\<close> with the process-wide map passed in and returned.\<close>

definition rateLimit ::
  "date \<Rightarrow> (string \<rightharpoonup> RateLimitEntry) \<Rightarrow> string \<Rightarrow> RateLimitOptions
     \<Rightarrow> RateLimitResult \<times> (string \<rightharpoonup> RateLimitEntry)" where
  "rateLimit now store key options =
     (let fresh = (\<lparr>success = True, remaining = rl_max options - 1,
                     res_resetAt = now + windowMs options\<rparr>,
                   store(key \<mapsto> \<lparr>count = 1, resetAt = now + windowMs options\<rparr>))
      in case store key of
           None \<Rightarrow> fresh
         | Some entry \<Rightarrow>
             if resetAt entry \<le> now then fresh
             else
               (let entry' = entry\<lparr>count := count entry + 1\<rparr>;
                    store' = store(key \<mapsto> entry')
                in if count entry' > rl_max options
                   then (\<lparr>success = False, remaining = 0, res_resetAt = resetAt entry'\<rparr>, store')
                   else (\<lparr>success = True, remaining = rl_max options - count entry',
                          res_resetAt = resetAt entry'\<rparr>, store')))"

definition RATE_LIMITS_booking :: RateLimitOptions where
  "RATE_LIMITS_booking = \<lparr>windowMs = 60 * 1000, rl_max = 10\<rparr>"

section \<open>Booking commit\<close>

text \<open>
  The handler \<open>POST\<close> of the bookings route, in the order of the source: rate limit,
  body, validation, idempotency lookup (\<open>POST\<close>); event type, pre-commit check,
  destination calendar, insert (\<open>commitBooking\<close>); calendar event, emails, response
  (\<open>afterInsert\<close>). \<open>catchError\<close> is the outer \<open>catch\<close> block, applied to the code of
  the exception that reaches it. \<open>req_ip\<close> is the value of \<open>getClientIP\<close>, and a body
  that is not JSON is \<open>None\<close>. The store is taken to be reachable: the one database error
  in the model is the unique-constraint rejection of \<open>create\<close>, code P2002.
  \<open>repeatPOST\<close> submits one request several times, at the given clock values.
\<close>

datatype Body = ErrorBody string | BookingBody string date date "string option"

record Response =
  http_status :: nat
  http_body :: Body
  rateLimitHeaders :: "(int \<times> date) option"

record Request =
  req_ip :: string
  req_body :: "BookingInput option"

definition json :: "nat \<Rightarrow> Body \<Rightarrow> Response" where
  "json st b = \<lparr>http_status = st, http_body = b, rateLimitHeaders = None\<rparr>"

definition maxLen :: "nat \<Rightarrow> string option \<Rightarrow> bool" where
  "maxLen n v = (case v of None \<Rightarrow> True | Some s \<Rightarrow> length s \<le> n)"

definition bookingSchema :: "Env \<Rightarrow> BookingInput \<Rightarrow> bool" where
  "bookingSchema E d =
     (1 \<le> length (in_eventTypeId d)
    \<and> isDatetime E (in_startTime d)
    \<and> 1 \<le> length (in_timezone d)
    \<and> 1 \<le> length (in_attendeeName d) \<and> length (in_attendeeName d) \<le> 100
    \<and> isEmail E (in_attendeeEmail d)
    \<and> maxLen 20 (in_attendeePhone d)
    \<and> maxLen 100 (in_attendeeCompany d)
    \<and> maxLen 1000 (in_attendeeNotes d))"

definition generatedIdempotencyKey :: "Env \<Rightarrow> date \<Rightarrow> BookingInput \<Rightarrow> string" where
  "generatedIdempotencyKey E now d =
     hashString E (in_eventTypeId d @ '':'' @ in_startTime d @ '':'' @ in_attendeeEmail d
                     @ '':'' @ showInt now)"

definition requestIdempotencyKey :: "Env \<Rightarrow> date \<Rightarrow> BookingInput \<Rightarrow> string" where
  "requestIdempotencyKey E now d =
     (case in_idempotencyKey d of
        None \<Rightarrow> generatedIdempotencyKey E now d
      | Some providedIdempotencyKey \<Rightarrow>
          if providedIdempotencyKey = [] then generatedIdempotencyKey E now d
          else providedIdempotencyKey)"

definition catchError :: "string option \<Rightarrow> World \<Rightarrow> Response \<times> World" where
  "catchError code w =
     (let w' = w\<lparr>consoleErrors := consoleErrors w @ [''Error creating booking:'']\<rparr>
      in if code = Some ''P2002''
         then (json 409 (ErrorBody ''This time slot is no longer available''), w')
         else (json 500 (ErrorBody ''Failed to create booking''), w'))"

definition bookingCreate :: "Env \<Rightarrow> World \<Rightarrow> Booking \<Rightarrow> string + Booking \<times> World" where
  "bookingCreate E w dat =
     (if uniqueConstraintFails E (bookings w) dat then Inl ''P2002''
      else Inr (dat, w\<lparr>bookings := bookings w @ [dat]\<rparr>))"

definition orUndefined :: "string option \<Rightarrow> string option" where
  "orUndefined v = (case v of None \<Rightarrow> None | Some s \<Rightarrow> if s = [] then None else Some s)"

definition calendarEventData :: "EventType \<Rightarrow> BookingInput \<Rightarrow> date \<Rightarrow> date \<Rightarrow> CalendarEventData" where
  "calendarEventData eventType d start en =
     (let shouldCreateMeet = (et_locationType eventType = GOOGLE_MEET)
      in \<lparr>summary = et_name eventType @ '' with '' @ in_attendeeName d,
          description = ''Booked via Calendar Booking'' @ [CHR 0x0A, CHR 0x0A]
             @ ''Attendee: '' @ in_attendeeName d @ [CHR 0x0A]
             @ ''Email: '' @ in_attendeeEmail d
             @ (case orUndefined (in_attendeeNotes d) of
                  None \<Rightarrow> []
                | Some notes \<Rightarrow> [CHR 0x0A, CHR 0x0A] @ ''Notes: '' @ notes),
          ev_start = start,
          ev_end = en,
          ev_timezone = in_timezone d,
          attendees = [(Some (in_attendeeEmail d), Some (in_attendeeName d)),
                       (user_email (et_user eventType), orUndefined (user_name (et_user eventType)))],
          location = orUndefined (et_locationValue eventType),
          conferenceData = shouldCreateMeet\<rparr>)"

definition bookingEmailData ::
  "EventType \<Rightarrow> BookingInput \<Rightarrow> date \<Rightarrow> date \<Rightarrow> string option \<Rightarrow> Booking \<Rightarrow> BookingEmailData" where
  "bookingEmailData eventType d start en mUrl booking =
     \<lparr>em_attendeeName = in_attendeeName d,
      em_attendeeEmail = in_attendeeEmail d,
      hostName = (case orUndefined (user_name (et_user eventType)) of
                    None \<Rightarrow> ''Host'' | Some n \<Rightarrow> n),
      hostEmail = user_email (et_user eventType),
      eventTypeName = et_name eventType,
      em_startTime = start,
      em_endTime = en,
      em_timezone = in_timezone d,
      em_meetingUrl = mUrl,
      em_location = orUndefined (et_locationValue eventType),
      bookingUid = uid booking\<rparr>"

definition recordCalendarEvent :: "Booking \<Rightarrow> Calendar \<Rightarrow> string \<Rightarrow> string option \<Rightarrow> World \<Rightarrow> World" where
  "recordCalendarEvent booking destinationCalendar eventId url w =
     w\<lparr>bookings :=
         map (\<lambda>b. if b_id b = b_id booking
                   then b\<lparr>googleEventId := Some eventId,
                          b_googleCalendarId := Some (googleCalendarId destinationCalendar),
                          meetingUrl := (case url of None \<Rightarrow> meetingUrl b | Some u \<Rightarrow> Some u)\<rparr>
                   else b)
           (bookings w)\<rparr>"

definition afterInsert ::
  "Env \<Rightarrow> World \<Rightarrow> EventType \<Rightarrow> BookingInput \<Rightarrow> date \<Rightarrow> date \<Rightarrow> Calendar \<Rightarrow> Booking
     \<Rightarrow> Response \<times> World" where
  "afterInsert E w eventType d start en destinationCalendar booking =
     (let (mUrl, w1) =
            (case createCalendarEvent E w (connectedAccountId destinationCalendar)
                    (googleCalendarId destinationCalendar)
                    (calendarEventData eventType d start en) of
               (Inl e, w') \<Rightarrow>
                 (None, w'\<lparr>consoleErrors := consoleErrors w' @ [''Error creating calendar event:'']\<rparr>)
             | (Inr (eventId, url), w') \<Rightarrow>
                 (url, recordCalendarEvent booking destinationCalendar eventId url w'));
          emailData = bookingEmailData eventType d start en mUrl booking;
          w2 = (if sendBookingConfirmationEmail E emailData \<and> sendHostNotificationEmail E emailData
                then w1
                else w1\<lparr>consoleErrors := consoleErrors w1 @ [''Error sending emails:'']\<rparr>)
      in (json 201 (BookingBody (uid booking) (startTime booking) (endTime booking) mUrl), w2))"

definition newBookingData ::
  "Env \<Rightarrow> EventType \<Rightarrow> BookingInput \<Rightarrow> string \<Rightarrow> date \<Rightarrow> date \<Rightarrow> Booking" where
  "newBookingData E eventType d idemKey start en =
     \<lparr>b_id = cuid E,
      uid = uuidv4 E,
      b_userId = et_userId eventType,
      b_eventTypeId = in_eventTypeId d,
      startTime = start,
      endTime = en,
      b_timezone = in_timezone d,
      attendeeName = in_attendeeName d,
      attendeeEmail = in_attendeeEmail d,
      attendeePhone = in_attendeePhone d,
      attendeeCompany = in_attendeeCompany d,
      attendeeNotes = in_attendeeNotes d,
      customResponses = in_customResponses d,
      idempotencyKey = Some idemKey,
      status = (if et_requiresConfirmation eventType then PENDING else CONFIRMED),
      googleEventId = None,
      b_googleCalendarId = None,
      meetingUrl = None\<rparr>"

definition commitBooking ::
  "Env \<Rightarrow> World \<Rightarrow> BookingInput \<Rightarrow> string \<Rightarrow> date \<Rightarrow> Response \<times> World" where
  "commitBooking E w d idemKey start =
     (case find (\<lambda>et. et_id et = in_eventTypeId d) (eventTypes w) of
        None \<Rightarrow> (json 404 (ErrorBody ''Event type not found or not active''), w)
      | Some eventType \<Rightarrow>
          if \<not> et_isActive eventType
          then (json 404 (ErrorBody ''Event type not found or not active''), w)
          else
            (let en = addMinutes start (et_duration eventType);
                 (avail, w1) = isSlotAvailable E w (in_eventTypeId d) start en
             in if \<not> avail
                then (json 409 (ErrorBody ''This time slot is no longer available''), w1)
                else
                  (case filter (\<lambda>a. etc_eventTypeId a = et_id eventType \<and> isDestination a)
                          (eventTypeCalendars w1) of
                     [] \<Rightarrow> (json 500 (ErrorBody ''No destination calendar configured''), w1)
                   | destinationCalendarAssoc # _ \<Rightarrow>
                       (case find (\<lambda>c. cal_id c = etc_calendarId destinationCalendarAssoc)
                               (calendars w1) of
                          None \<Rightarrow> catchError None w1
                        | Some destinationCalendar \<Rightarrow>
                            (case bookingCreate E w1
                                    (newBookingData E eventType d idemKey start en) of
                               Inl code \<Rightarrow> catchError (Some code) w1
                             | Inr (booking, w2) \<Rightarrow>
                                 afterInsert E w2 eventType d start en
                                   destinationCalendar booking)))))"

definition POST :: "Env \<Rightarrow> World \<Rightarrow> Request \<Rightarrow> Response \<times> World" where
  "POST E w request =
     (let (rateLimitResult, store') =
            rateLimit (clock w) (rateLimitStore w) (''booking:'' @ req_ip request) RATE_LIMITS_booking;
          w0 = w\<lparr>rateLimitStore := store'\<rparr>
      in if \<not> success rateLimitResult
         then (\<lparr>http_status = 429,
                http_body = ErrorBody ''Too many requests. Please try again later.'',
                rateLimitHeaders = Some (remaining rateLimitResult, res_resetAt rateLimitResult)\<rparr>,
               w0)
         else
           (case req_body request of
              None \<Rightarrow> catchError None w0
            | Some d \<Rightarrow>
                if \<not> bookingSchema E d then (json 400 (ErrorBody ''Invalid input''), w0)
                else
                  (let start = parseDate E (in_startTime d);
                       idemKey = requestIdempotencyKey E (clock w0) d
                   in case find (\<lambda>b. idempotencyKey b = Some idemKey) (bookings w0) of
                        Some existingBooking \<Rightarrow>
                          (json 200 (BookingBody (uid existingBooking) (startTime existingBooking)
                                       (endTime existingBooking) (meetingUrl existingBooking)),
                           w0)
                      | None \<Rightarrow> commitBooking E w0 d idemKey start)))"


section \<open>Notions used to state the properties\<close>

text \<open>
  \<open>cover b\<close> is the half-open set of instants of a block. \<open>coalesce\<close> is the merge loop
  seen from the front: the block being extended and the blocks still to come.
\<close>

definition cover :: "BusyBlock \<Rightarrow> int set" where
  "cover b = {block_start b ..< block_end b}"

fun coalesce :: "BusyBlock \<Rightarrow> BusyBlock list \<Rightarrow> BusyBlock list" where
  "coalesce l [] = [l]"
| "coalesce l (c # rest) =
     (if block_start c \<le> block_end l then
        (if block_end c > block_end l then coalesce (l\<lparr>block_end := block_end c\<rparr>) rest
         else coalesce l rest)
      else l # coalesce c rest)"

text \<open>
  \<open>sameTables w w'\<close>: \<open>w'\<close> differs from \<open>w\<close> at most in the connected accounts and the
  console. \<open>allInvalid a w\<close>: every account row with id \<open>a\<close> is marked invalid.
  \<open>afterAccount\<close> is the store after one account's fetch and its \<open>catch\<close> handler, and
  \<open>contribution\<close> what that account adds to the composite list.
\<close>

definition sameTables :: "World \<Rightarrow> World \<Rightarrow> bool" where
  "sameTables w w' =
     (clock w' = clock w \<and> eventTypes w' = eventTypes w \<and> bookings w' = bookings w
      \<and> calendars w' = calendars w \<and> eventTypeCalendars w' = eventTypeCalendars w
      \<and> rateLimitStore w' = rateLimitStore w)"




text \<open>
  \<open>visitedDays\<close> lists the values that \<open>currentDate\<close> takes in the day loop of
  \<open>generateAvailableSlots\<close>. \<open>workingTime\<close> is the date that \<open>generateDayCandidateSlots\<close>
  builds from one time string, before the zone conversion, and \<open>dayResolves\<close> says that on
  the day of \<open>currentDate\<close> the start and the end of the working hours that apply, if any
  do, are valid dates.
\<close>

function visitedDays :: "date \<Rightarrow> date \<Rightarrow> date list" where
  "visitedDays currentDate effEnd =
     (if isBefore currentDate (endOfDay effEnd)
      then currentDate # visitedDays (addDays currentDate 1) effEnd
      else [])"
  by pat_completeness auto
termination
  by (relation "measure (\<lambda>(currentDate, effEnd). nat (endOfDay effEnd - currentDate))")
     (auto simp: isBefore_def addDays_def)

definition workingTime :: "Env \<Rightarrow> date \<Rightarrow> string \<Rightarrow> date option" where
  "workingTime E d time =
     (case parseTimeString E time of
        (hours, minutes) \<Rightarrow> setMinutes (setHours (Some (startOfDay d)) hours) minutes)"

definition dayResolves :: "Env \<Rightarrow> EventTypeConfig \<Rightarrow> date \<Rightarrow> bool" where
  "dayResolves E config currentDate =
     (let d = toZonedTime E currentDate (timezone config) in
      case find (\<lambda>wh. wh_day wh = getDay d) (workingHours config) of
        None \<Rightarrow> True
      | Some dayConfig \<Rightarrow> workingTime E d (wh_start dayConfig) \<noteq> None
                          \<and> workingTime E d (wh_end dayConfig) \<noteq> None)"

section \<open>A concrete store and environment\<close>

text \<open>
  Modelled from the spec: the database schema with its unique indexes is not among the
  sources. The data model lists a uniqueness constraint on (host, start, end) restricted to
  bookings that are not cancelled, and a unique idempotency key when present. The theorems
  below hold for every \<open>uniqueConstraintFails\<close>; this instance is used in the examples.
\<close>

definition specUniqueConstraint :: "Booking list \<Rightarrow> Booking \<Rightarrow> bool" where
  "specUniqueConstraint rows new =
     list_ex (\<lambda>b. (status b \<noteq> CANCELLED \<and> status new \<noteq> CANCELLED
                    \<and> b_userId b = b_userId new
                    \<and> startTime b = startTime new \<and> endTime b = endTime new)
                \<or> (idempotencyKey b \<noteq> None \<and> idempotencyKey b = idempotencyKey new)) rows"

text \<open>
  The example host works Mondays 09:00 to 10:30 UTC, with 30-minute meetings every 15
  minutes and four hours of notice. The clock stands at Monday 2024-01-15 05:30 UTC
  (1705296600000). In \<open>exampleEnv\<close> the provider reports no busy time, and token refresh,
  event insertion and both emails fail. \<open>exampleBooking\<close> occupies 09:15 to 09:45.

  The \<open>Number\<close> of \<open>exampleEnv\<close> is \<open>stringToNumber\<close>, the conversion of the language on
  strings of 8-bit characters: white space is trimmed, the empty string is 0, and the rest
  is a decimal literal (sign, digits, fraction, exponent, \<open>Infinity\<close>) or an unsigned
  hexadecimal, octal or binary integer; every other string is \<open>NaN\<close>. The value is the exact
  value of the literal, where the language takes the nearest double.
\<close>

definition isStrWhiteSpace :: "char \<Rightarrow> bool" where
  "isStrWhiteSpace c = ((of_char c :: nat) \<in> {9, 10, 11, 12, 13, 32, 160})"

definition trimWhiteSpace :: "string \<Rightarrow> string" where
  "trimWhiteSpace s = rev (dropWhile isStrWhiteSpace (rev (dropWhile isStrWhiteSpace s)))"

definition digitOf :: "char \<Rightarrow> nat option" where
  "digitOf c = (let n = (of_char c :: nat) in
                if 48 \<le> n \<and> n \<le> 57 then Some (n - 48)
                else if 97 \<le> n \<and> n \<le> 102 then Some (n - 87)
                else if 65 \<le> n \<and> n \<le> 70 then Some (n - 55)
                else None)"

definition isDecimalDigit :: "char \<Rightarrow> bool" where
  "isDecimalDigit c = (48 \<le> (of_char c :: nat) \<and> (of_char c :: nat) \<le> 57)"

fun digitsIn :: "nat \<Rightarrow> int \<Rightarrow> string \<Rightarrow> int option" where
  "digitsIn base acc [] = Some acc"
| "digitsIn base acc (c # cs) =
     (case digitOf c of
        None \<Rightarrow> None
      | Some v \<Rightarrow> if v < base then digitsIn base (acc * int base + int v) cs else None)"

definition radixLiteral :: "nat \<Rightarrow> string \<Rightarrow> number" where
  "radixLiteral base ds =
     (if ds = [] then NaN
      else case digitsIn base 0 ds of None \<Rightarrow> NaN | Some v \<Rightarrow> Finite (of_int v))"

definition signedInteger :: "string \<Rightarrow> int option" where
  "signedInteger s =
     (case s of
        [] \<Rightarrow> None
      | c # cs \<Rightarrow>
          if c = CHR ''+'' then (if cs = [] then None else digitsIn 10 0 cs)
          else if c = CHR ''-'' then (if cs = [] then None else map_option uminus (digitsIn 10 0 cs))
          else digitsIn 10 0 s)"

definition exponentPart :: "string \<Rightarrow> int option" where
  "exponentPart s =
     (case s of
        [] \<Rightarrow> Some 0
      | c # cs \<Rightarrow> if c = CHR ''e'' \<or> c = CHR ''E'' then signedInteger cs else None)"

definition scaleByTen :: "rat \<Rightarrow> int \<Rightarrow> rat" where
  "scaleByTen q e = (if 0 \<le> e then q * 10 ^ nat e else q / 10 ^ nat (- e))"

definition unsignedDecimalLiteral :: "string \<Rightarrow> number" where
  "unsignedDecimalLiteral s =
     (if s = ''Infinity'' then PosInfinity
      else
        (let ip = takeWhile isDecimalDigit s;
             r1 = dropWhile isDecimalDigit s;
             dot = (r1 \<noteq> [] \<and> hd r1 = CHR ''.'');
             fp = (if dot then takeWhile isDecimalDigit (tl r1) else []);
             r2 = (if dot then dropWhile isDecimalDigit (tl r1) else r1)
         in if ip = [] \<and> fp = [] then NaN
            else (case (digitsIn 10 0 ip, digitsIn 10 0 fp, exponentPart r2) of
                    (Some i, Some f, Some e) \<Rightarrow>
                      Finite (scaleByTen (of_int i + of_int f / 10 ^ length fp) e)
                  | _ \<Rightarrow> NaN)))"

definition negate :: "number \<Rightarrow> number" where
  "negate n = (case n of NaN \<Rightarrow> NaN | PosInfinity \<Rightarrow> NegInfinity | NegInfinity \<Rightarrow> PosInfinity
               | Finite q \<Rightarrow> Finite (- q))"

definition stringToNumber :: "string \<Rightarrow> number" where
  "stringToNumber s =
     (case trimWhiteSpace s of
        [] \<Rightarrow> Finite 0
      | c # cs \<Rightarrow>
          if c = CHR ''0'' \<and> cs \<noteq> [] \<and> (hd cs = CHR ''x'' \<or> hd cs = CHR ''X'')
            then radixLiteral 16 (tl cs)
          else if c = CHR ''0'' \<and> cs \<noteq> [] \<and> (hd cs = CHR ''o'' \<or> hd cs = CHR ''O'')
            then radixLiteral 8 (tl cs)
          else if c = CHR ''0'' \<and> cs \<noteq> [] \<and> (hd cs = CHR ''b'' \<or> hd cs = CHR ''B'')
            then radixLiteral 2 (tl cs)
          else if c = CHR ''+'' then unsignedDecimalLiteral cs
          else if c = CHR ''-'' then negate (unsignedDecimalLiteral cs)
          else unsignedDecimalLiteral (c # cs))"

definition exampleEnv :: Env where
  "exampleEnv =
     \<lparr>toZonedTime = (\<lambda>d tz. d),
      fromZonedTime = (\<lambda>d tz. d),
      Number = stringToNumber,
      encrypt = (\<lambda>s. s),
      decrypt = (\<lambda>s. s),
      hashString = (\<lambda>s. ''sha256:'' @ s),
      refreshAccessToken = (\<lambda>c. None),
      freebusyQuery = (\<lambda>c ids timeMin timeMax. Some []),
      eventsInsert = (\<lambda>c cal ev. None),
      isDatetime = (\<lambda>s. s = ''2024-01-15T09:30:00.000Z''),
      isEmail = (\<lambda>s. CHR ''@'' \<in> set s),
      parseDate = (\<lambda>s. 1705311000000),
      uuidv4 = ''3f0c9a52-uid'',
      cuid = ''bk_new'',
      sendBookingConfirmationEmail = (\<lambda>m. False),
      sendHostNotificationEmail = (\<lambda>m. False),
      uniqueConstraintFails = specUniqueConstraint\<rparr>"

definition exampleEventType :: EventType where
  "exampleEventType =
     \<lparr>et_id = ''evt_intro'',
      et_userId = ''host_1'',
      et_user = \<lparr>user_id = ''host_1'', user_name = Some ''Host One'',
                 user_email = Some ''host@example.com'', user_timezone = ''UTC''\<rparr>,
      et_name = ''Intro call'',
      et_isActive = True,
      et_duration = 30,
      et_bufferBefore = 0,
      et_bufferAfter = 0,
      et_minimumNotice = 240,
      et_schedulingWindow = 30,
      et_slotInterval = 15,
      et_workingHours = [\<lparr>wh_day = 1, wh_start = ''09:00'', wh_end = ''10:30''\<rparr>],
      et_treatTentativeAsBusy = True,
      et_includeAllDayEvents = True,
      et_requiresConfirmation = False,
      et_locationType = GOOGLE_MEET,
      et_locationValue = None\<rparr>"

definition exampleBooking :: "BookingStatus \<Rightarrow> Booking" where
  "exampleBooking st =
     \<lparr>b_id = ''bk_1'',
      uid = ''uid_1'',
      b_userId = ''host_1'',
      b_eventTypeId = ''evt_intro'',
      startTime = 1705310100000,
      endTime = 1705311900000,
      b_timezone = ''UTC'',
      attendeeName = ''Ann'',
      attendeeEmail = ''ann@example.com'',
      attendeePhone = None,
      attendeeCompany = None,
      attendeeNotes = None,
      customResponses = None,
      idempotencyKey = Some ''key-1'',
      status = st,
      googleEventId = None,
      b_googleCalendarId = None,
      meetingUrl = None\<rparr>"

definition exampleWorld :: "Booking list \<Rightarrow> (string \<rightharpoonup> RateLimitEntry) \<Rightarrow> World" where
  "exampleWorld rows store =
     \<lparr>clock = 1705296600000,
      eventTypes = [exampleEventType],
      bookings = rows,
      calendars = [\<lparr>cal_id = ''cal_1'', cal_userId = ''host_1'', connectedAccountId = ''acc_1'',
                     googleCalendarId = ''primary'', isSelected = True\<rparr>],
      connectedAccounts = [\<lparr>acc_id = ''acc_1'', accessToken = ''at'', refreshToken = ''rt'',
                             expiresAt = 1705363200000, isValid = True\<rparr>],
      eventTypeCalendars = [\<lparr>etc_eventTypeId = ''evt_intro'', etc_calendarId = ''cal_1'',
                              isDestination = True\<rparr>],
      rateLimitStore = store,
      consoleErrors = []\<rparr>"

definition exampleBlocks :: "BusyBlock list" where
  "exampleBlocks =
     [\<lparr>block_start = 3600000, block_end = 7200000, calendarId = ''cal2''\<rparr>,
      \<lparr>block_start = 0, block_end = 3600000, calendarId = ''cal1''\<rparr>,
      \<lparr>block_start = 9000000, block_end = 10800000, calendarId = ''bookings''\<rparr>]"

text \<open>
  A request for the 09:30 slot from one client address; \<open>hits n\<close> is the rate limiter's
  map after \<open>n\<close> requests of that client in the current window.
  \<open>completedSlotBooking\<close> is a COMPLETED booking of the host on exactly that slot. In \<open>expiredWorld\<close> the
  account's token has run out, in \<open>outageEnv\<close> the free/busy query is rejected, and in
  \<open>retiredWorld\<close> the event type is deactivated and the stored booking cancelled.
\<close>

definition exampleInput :: "string option \<Rightarrow> string \<Rightarrow> BookingInput" where
  "exampleInput key email =
     \<lparr>in_eventTypeId = ''evt_intro'',
      in_startTime = ''2024-01-15T09:30:00.000Z'',
      in_timezone = ''Europe/Berlin'',
      in_attendeeName = ''Bo'',
      in_attendeeEmail = email,
      in_attendeePhone = None,
      in_attendeeCompany = None,
      in_attendeeNotes = None,
      in_customResponses = None,
      in_idempotencyKey = key\<rparr>"

definition exampleRequest :: "string option \<Rightarrow> string \<Rightarrow> Request" where
  "exampleRequest key email = \<lparr>req_ip = ''203.0.113.7'', req_body = Some (exampleInput key email)\<rparr>"


definition firstHit :: "string \<rightharpoonup> RateLimitEntry" where
  "firstHit = [''booking:203.0.113.7'' \<mapsto> \<lparr>count = 1, resetAt = 1705296660000\<rparr>]"




definition retiredWorld :: World where
  "retiredWorld =
     (exampleWorld [exampleBooking CANCELLED] Map.empty)
       \<lparr>eventTypes := [exampleEventType\<lparr>et_isActive := False\<rparr>]\<rparr>"

definition exampleConfig :: EventTypeConfig where
  "exampleConfig =
     \<lparr>userId = ''host_1'', duration = 30, bufferBefore = 0, bufferAfter = 0,
      minimumNotice = 240, schedulingWindow = 30, slotInterval = 15,
      workingHours = [\<lparr>wh_day = 1, wh_start = ''09:00'', wh_end = ''10:30''\<rparr>],
      treatTentativeAsBusy = True, includeAllDayEvents = True, timezone = ''UTC''\<rparr>"

section \<open>Properties of the interval algebra\<close>

lemma mergeLoop_coalesce:
  "merged \<noteq> [] \<Longrightarrow> mergeLoop merged rest = butlast merged @ coalesce (last merged) rest"
  by (induction rest arbitrary: merged) (simp_all add: Let_def)

lemma coalesce_starts:
  "sorted (map block_start (l # rest)) \<Longrightarrow> b \<in> set (coalesce l rest)
    \<Longrightarrow> block_start l \<le> block_start b"
proof (induction l rest rule: coalesce.induct)
  case (1 l)
  then show ?case by simp
next
  case (2 l c rest)
  have lc: "block_start l \<le> block_start c" using "2.prems"(1) by simp
  show ?case
  proof (cases "block_start c \<le> block_end l")
    case touch: True
    show ?thesis
    proof (cases "block_end c > block_end l")
      case True
      have s: "sorted (map block_start (l\<lparr>block_end := block_end c\<rparr> # rest))"
        using "2.prems"(1) by simp
      have "b \<in> set (coalesce (l\<lparr>block_end := block_end c\<rparr>) rest)"
        using "2.prems"(2) touch True by simp
      from "2.IH"(1)[OF touch True s this] show ?thesis by simp
    next
      case False
      have s: "sorted (map block_start (l # rest))"
        using "2.prems"(1) by simp
      have "b \<in> set (coalesce l rest)"
        using "2.prems"(2) touch False by simp
      from "2.IH"(2)[OF touch False s this] show ?thesis .
    qed
  next
    case False
    have s: "sorted (map block_start (c # rest))"
      using "2.prems"(1) by simp
    have "b = l \<or> b \<in> set (coalesce c rest)"
      using "2.prems"(2) False by simp
    then show ?thesis
    proof
      assume "b = l" then show ?thesis by simp
    next
      assume "b \<in> set (coalesce c rest)"
      from "2.IH"(3)[OF False s this] lc show ?thesis by simp
    qed
  qed
qed

lemma coalesce_nonempty:
  "block_start l < block_end l \<Longrightarrow> \<forall>c\<in>set rest. block_start c < block_end c
   \<Longrightarrow> sorted (map block_start (l # rest))
   \<Longrightarrow> \<forall>b\<in>set (coalesce l rest). block_start b < block_end b"
proof (induction l rest rule: coalesce.induct)
  case (1 l)
  then show ?case by simp
next
  case (2 l c rest)
  have cr: "\<forall>x\<in>set rest. block_start x < block_end x" and cc: "block_start c < block_end c"
    using "2.prems"(2) by simp_all
  show ?case
  proof (cases "block_start c \<le> block_end l")
    case touch: True
    show ?thesis
    proof (cases "block_end c > block_end l")
      case True
      have s: "sorted (map block_start (l\<lparr>block_end := block_end c\<rparr> # rest))"
        using "2.prems"(3) by simp
      have n: "block_start (l\<lparr>block_end := block_end c\<rparr>) < block_end (l\<lparr>block_end := block_end c\<rparr>)"
        using "2.prems"(1) True by simp
      from "2.IH"(1)[OF touch True n cr s] touch True show ?thesis by simp
    next
      case False
      have s: "sorted (map block_start (l # rest))"
        using "2.prems"(3) by simp
      from "2.IH"(2)[OF touch False "2.prems"(1) cr s] touch False show ?thesis by simp
    qed
  next
    case False
    have s: "sorted (map block_start (c # rest))"
      using "2.prems"(3) by simp
    from "2.IH"(3)[OF False cc cr s] False "2.prems"(1) show ?thesis by simp
  qed
qed

lemma coalesce_cover:
  "sorted (map block_start (l # rest)) \<Longrightarrow>
   (\<Union>b\<in>set (coalesce l rest). cover b) = cover l \<union> (\<Union>b\<in>set rest. cover b)"
proof (induction l rest rule: coalesce.induct)
  case (1 l)
  then show ?case by simp
next
  case (2 l c rest)
  have lc: "block_start l \<le> block_start c" using "2.prems" by simp
  show ?case
  proof (cases "block_start c \<le> block_end l")
    case touch: True
    show ?thesis
    proof (cases "block_end c > block_end l")
      case True
      have s: "sorted (map block_start (l\<lparr>block_end := block_end c\<rparr> # rest))"
        using "2.prems" by simp
      have e: "cover (l\<lparr>block_end := block_end c\<rparr>) = cover l \<union> cover c"
        unfolding cover_def using touch True lc by (simp add: ivl_disj_un_two_touch) auto
      have "(\<Union>b\<in>set (coalesce l (c # rest)). cover b)
            = (\<Union>b\<in>set (coalesce (l\<lparr>block_end := block_end c\<rparr>) rest). cover b)"
        using touch True by simp
      also have "\<dots> = cover (l\<lparr>block_end := block_end c\<rparr>) \<union> (\<Union>b\<in>set rest. cover b)"
        by (rule "2.IH"(1)[OF touch True s])
      also have "\<dots> = cover l \<union> (\<Union>b\<in>set (c # rest). cover b)"
        unfolding e by (simp add: Un_assoc)
      finally show ?thesis .
    next
      case False
      have s: "sorted (map block_start (l # rest))"
        using "2.prems" by simp
      have e: "cover c \<subseteq> cover l"
        unfolding cover_def using False lc by simp
      have "(\<Union>b\<in>set (coalesce l (c # rest)). cover b)
            = (\<Union>b\<in>set (coalesce l rest). cover b)"
        using touch False by simp
      also have "\<dots> = cover l \<union> (\<Union>b\<in>set rest. cover b)"
        by (rule "2.IH"(2)[OF touch False s])
      also have "\<dots> = cover l \<union> (\<Union>b\<in>set (c # rest). cover b)"
        using e by auto
      finally show ?thesis .
    qed
  next
    case False
    have s: "sorted (map block_start (c # rest))"
      using "2.prems" by simp
    have "(\<Union>b\<in>set (coalesce l (c # rest)). cover b)
            = cover l \<union> (\<Union>b\<in>set (coalesce c rest). cover b)"
      using False by simp
    also have "\<dots> = cover l \<union> (\<Union>b\<in>set (c # rest). cover b)"
      unfolding "2.IH"(3)[OF False s] by simp
    finally show ?thesis .
  qed
qed

lemma coalesce_separated:
  "sorted (map block_start (l # rest)) \<Longrightarrow>
   sorted_wrt (\<lambda>x y. block_end x < block_start y) (coalesce l rest)"
proof (induction l rest rule: coalesce.induct)
  case (1 l)
  then show ?case by simp
next
  case (2 l c rest)
  show ?case
  proof (cases "block_start c \<le> block_end l")
    case touch: True
    show ?thesis
    proof (cases "block_end c > block_end l")
      case True
      have s: "sorted (map block_start (l\<lparr>block_end := block_end c\<rparr> # rest))"
        using "2.prems" by simp
      from "2.IH"(1)[OF touch True s] touch True show ?thesis by simp
    next
      case False
      have s: "sorted (map block_start (l # rest))"
        using "2.prems" by simp
      from "2.IH"(2)[OF touch False s] touch False show ?thesis by simp
    qed
  next
    case False
    have s: "sorted (map block_start (c # rest))"
      using "2.prems" by simp
    have "\<forall>b\<in>set (coalesce c rest). block_end l < block_start b"
    proof
      fix b assume "b \<in> set (coalesce c rest)"
      from coalesce_starts[OF s this] False show "block_end l < block_start b" by simp
    qed
    with "2.IH"(3)[OF False s] False show ?thesis by simp
  qed
qed

lemma coalesce_contains:
  "sorted (map block_start (l # rest)) \<Longrightarrow>
   \<forall>a\<in>set (l # rest). \<exists>c\<in>set (coalesce l rest).
      block_start c \<le> block_start a \<and> block_end a \<le> block_end c"
proof (induction l rest rule: coalesce.induct)
  case (1 l)
  then show ?case by simp
next
  case (2 l c rest)
  have lc: "block_start l \<le> block_start c" using "2.prems" by simp
  show ?case
  proof (cases "block_start c \<le> block_end l")
    case touch: True
    show ?thesis
    proof (cases "block_end c > block_end l")
      case True
      let ?l = "l\<lparr>block_end := block_end c\<rparr>"
      have s: "sorted (map block_start (?l # rest))"
        using "2.prems" by simp
      have ih: "\<forall>x\<in>set (?l # rest). \<exists>c'\<in>set (coalesce ?l rest).
                  block_start c' \<le> block_start x \<and> block_end x \<le> block_end c'"
        by (rule "2.IH"(1)[OF touch True s])
      have eq: "coalesce l (c # rest) = coalesce ?l rest" using touch True by simp
      from ih obtain c' where c': "c' \<in> set (coalesce ?l rest)"
        "block_start c' \<le> block_start l" "block_end c \<le> block_end c'" by auto
      show ?thesis unfolding eq
      proof
        fix a assume "a \<in> set (l # c # rest)"
        then consider "a = l" | "a = c" | "a \<in> set rest" by auto
        then show "\<exists>c'\<in>set (coalesce ?l rest).
                  block_start c' \<le> block_start a \<and> block_end a \<le> block_end c'"
        proof cases
          case 1
          with c' True show ?thesis by (intro bexI[of _ c']) simp_all
        next
          case 2
          with c' lc show ?thesis by (intro bexI[of _ c']) simp_all
        next
          case 3
          with ih show ?thesis by simp
        qed
      qed
    next
      case False
      have s: "sorted (map block_start (l # rest))"
        using "2.prems" by simp
      have ih: "\<forall>x\<in>set (l # rest). \<exists>c'\<in>set (coalesce l rest).
                  block_start c' \<le> block_start x \<and> block_end x \<le> block_end c'"
        by (rule "2.IH"(2)[OF touch False s])
      have eq: "coalesce l (c # rest) = coalesce l rest" using touch False by simp
      from ih obtain c' where c': "c' \<in> set (coalesce l rest)"
        "block_start c' \<le> block_start l" "block_end l \<le> block_end c'" by auto
      show ?thesis unfolding eq
      proof
        fix a assume "a \<in> set (l # c # rest)"
        then consider "a = l" | "a = c" | "a \<in> set rest" by auto
        then show "\<exists>c'\<in>set (coalesce l rest).
                  block_start c' \<le> block_start a \<and> block_end a \<le> block_end c'"
        proof cases
          case 1
          with c' show ?thesis by (intro bexI[of _ c']) simp_all
        next
          case 2
          with c' lc False show ?thesis by (intro bexI[of _ c']) simp_all
        next
          case 3
          with ih show ?thesis by simp
        qed
      qed
    qed
  next
    case False
    have s: "sorted (map block_start (c # rest))"
      using "2.prems" by simp
    have ih: "\<forall>x\<in>set (c # rest). \<exists>c'\<in>set (coalesce c rest).
                  block_start c' \<le> block_start x \<and> block_end x \<le> block_end c'"
      by (rule "2.IH"(3)[OF False s])
    have eq: "coalesce l (c # rest) = l # coalesce c rest" using False by simp
    show ?thesis unfolding eq
    proof
      fix a assume "a \<in> set (l # c # rest)"
      then consider "a = l" | "a \<in> set (c # rest)" by auto
      then show "\<exists>c'\<in>set (l # coalesce c rest).
                  block_start c' \<le> block_start a \<and> block_end a \<le> block_end c'"
      proof cases
        case 1
        then show ?thesis by simp
      next
        case 2
        with ih obtain c' where "c' \<in> set (coalesce c rest)"
          "block_start c' \<le> block_start a \<and> block_end a \<le> block_end c'" by blast
        then show ?thesis by (intro bexI[of _ c']) simp_all
      qed
    qed
  qed
qed

lemma separated_sorted_starts:
  "sorted_wrt (\<lambda>x y. block_end x < block_start y) xs \<Longrightarrow>
   \<forall>b\<in>set xs. block_start b < block_end b \<Longrightarrow>
   sorted_wrt (\<lambda>x y. block_start x < block_start y) xs"
  by (induction xs) (auto intro: less_trans)

lemma separated_disjoint:
  "sorted_wrt (\<lambda>x y. block_end x < block_start y) xs \<Longrightarrow>
   sorted_wrt (\<lambda>x y. cover x \<inter> cover y = {}) xs"
proof (rule sorted_wrt_mono_rel[of xs "\<lambda>x y. block_end x < block_start y"])
  fix x y assume "x \<in> set xs" "y \<in> set xs" "block_end x < block_start y"
  then show "cover x \<inter> cover y = {}" unfolding cover_def by auto
qed

lemma separated_cases:
  "sorted_wrt R xs \<Longrightarrow> x \<in> set xs \<Longrightarrow> y \<in> set xs \<Longrightarrow> x = y \<or> R x y \<or> R y x"
  by (induction xs) auto

lemma mergeBusyBlocks_coalesce:
  assumes "blocks \<noteq> []"
  shows "mergeBusyBlocks blocks =
          coalesce (hd (sort_key block_start blocks)) (tl (sort_key block_start blocks))"
  using assms by (simp add: mergeBusyBlocks_def Let_def mergeLoop_coalesce)

lemma sort_key_hd_tl:
  assumes "blocks \<noteq> []"
  shows "hd (sort_key block_start blocks) # tl (sort_key block_start blocks)
           = sort_key block_start blocks"
proof -
  have "length (sort_key block_start blocks) = length blocks" by simp
  with assms have "sort_key block_start blocks \<noteq> []" by (metis length_0_conv)
  then show ?thesis by simp
qed

text \<open>
  Claim C3. For a list of busy blocks that each have \<open>start < end\<close>, \<open>mergeBusyBlocks\<close>
  returns blocks sorted by start, pairwise disjoint (indeed separated by a gap), covering
  exactly the instants the input covers; two input blocks \<open>a\<close>, \<open>b\<close> with
  \<open>a.start \<le> b.start \<le> a.end\<close> (overlapping or adjacent) lie in one output block, which
  covers \<open>[min a.start b.start, max a.end b.end)\<close>, and for exactly two such blocks the
  output is that single interval.
\<close>

theorem mergeBusyBlocks_correct:
  "(\<forall>b\<in>set blocks. block_start b < block_end b) \<longrightarrow>
     sorted (map block_start (mergeBusyBlocks blocks))
   \<and> sorted_wrt (\<lambda>x y. cover x \<inter> cover y = {}) (mergeBusyBlocks blocks)
   \<and> sorted_wrt (\<lambda>x y. block_end x < block_start y) (mergeBusyBlocks blocks)
   \<and> (\<Union>b\<in>set (mergeBusyBlocks blocks). cover b) = (\<Union>b\<in>set blocks. cover b)
   \<and> (\<forall>a\<in>set blocks. \<forall>b\<in>set blocks.
         block_start a \<le> block_start b \<and> block_end a \<ge> block_start b \<longrightarrow>
         (\<exists>c\<in>set (mergeBusyBlocks blocks).
            block_start c \<le> min (block_start a) (block_start b)
          \<and> max (block_end a) (block_end b) \<le> block_end c))
   \<and> (\<forall>a b. blocks = [a, b] \<and> block_start a \<le> block_start b \<and> block_end a \<ge> block_start b \<longrightarrow>
         map (\<lambda>c. (block_start c, block_end c)) (mergeBusyBlocks blocks)
           = [(min (block_start a) (block_start b), max (block_end a) (block_end b))])"
proof
  assume ne: "\<forall>b\<in>set blocks. block_start b < block_end b"
  let ?out = "mergeBusyBlocks blocks"
  show "sorted (map block_start ?out)
   \<and> sorted_wrt (\<lambda>x y. cover x \<inter> cover y = {}) ?out
   \<and> sorted_wrt (\<lambda>x y. block_end x < block_start y) ?out
   \<and> (\<Union>b\<in>set ?out. cover b) = (\<Union>b\<in>set blocks. cover b)
   \<and> (\<forall>a\<in>set blocks. \<forall>b\<in>set blocks.
         block_start a \<le> block_start b \<and> block_end a \<ge> block_start b \<longrightarrow>
         (\<exists>c\<in>set ?out.
            block_start c \<le> min (block_start a) (block_start b)
          \<and> max (block_end a) (block_end b) \<le> block_end c))
   \<and> (\<forall>a b. blocks = [a, b] \<and> block_start a \<le> block_start b \<and> block_end a \<ge> block_start b \<longrightarrow>
         map (\<lambda>c. (block_start c, block_end c)) ?out
           = [(min (block_start a) (block_start b), max (block_end a) (block_end b))])"
  proof (cases "blocks = []")
    case True
    then show ?thesis by (simp add: mergeBusyBlocks_def)
  next
    case False
    let ?s = "sort_key block_start blocks"
    let ?l = "hd ?s" and ?r = "tl ?s"
    have lr: "?l # ?r = ?s" by (rule sort_key_hd_tl[OF False])
    have out: "?out = coalesce ?l ?r" by (rule mergeBusyBlocks_coalesce[OF False])
    have srt: "sorted (map block_start (?l # ?r))" unfolding lr by simp
    have sets: "set (?l # ?r) = set blocks" unfolding lr by simp
    have nel: "block_start ?l < block_end ?l" and ner: "\<forall>c\<in>set ?r. block_start c < block_end c"
      using ne sets by auto
    have sep: "sorted_wrt (\<lambda>x y. block_end x < block_start y) ?out"
      unfolding out by (rule coalesce_separated[OF srt])
    have neo: "\<forall>b\<in>set ?out. block_start b < block_end b"
      unfolding out by (rule coalesce_nonempty[OF nel ner srt])
    have c1: "sorted (map block_start ?out)"
    proof -
      have "sorted_wrt (\<lambda>x y. block_start x < block_start y) ?out"
        by (rule separated_sorted_starts[OF sep neo])
      then have "sorted_wrt (\<lambda>x y. block_start x \<le> block_start y) ?out"
        by (rule sorted_wrt_mono_rel[rotated]) simp
      then show ?thesis by (simp add: sorted_map)
    qed
    have c2: "sorted_wrt (\<lambda>x y. cover x \<inter> cover y = {}) ?out"
      by (rule separated_disjoint[OF sep])
    have c4: "(\<Union>b\<in>set ?out. cover b) = (\<Union>b\<in>set blocks. cover b)"
    proof -
      have "(\<Union>b\<in>set ?out. cover b) = cover ?l \<union> (\<Union>b\<in>set ?r. cover b)"
        unfolding out by (rule coalesce_cover[OF srt])
      also have "\<dots> = (\<Union>b\<in>set (?l # ?r). cover b)" by simp
      also have "\<dots> = (\<Union>b\<in>set blocks. cover b)" unfolding sets ..
      finally show ?thesis .
    qed
    have cont: "\<forall>a\<in>set blocks. \<exists>c\<in>set ?out.
        block_start c \<le> block_start a \<and> block_end a \<le> block_end c"
      using coalesce_contains[OF srt] unfolding out sets .
    have c5: "\<forall>a\<in>set blocks. \<forall>b\<in>set blocks.
         block_start a \<le> block_start b \<and> block_end a \<ge> block_start b \<longrightarrow>
         (\<exists>c\<in>set ?out.
            block_start c \<le> min (block_start a) (block_start b)
          \<and> max (block_end a) (block_end b) \<le> block_end c)"
    proof (intro ballI impI)
      fix a b assume a: "a \<in> set blocks" and b: "b \<in> set blocks"
        and t: "block_start a \<le> block_start b \<and> block_end a \<ge> block_start b"
      from cont a obtain ca where ca: "ca \<in> set ?out"
        "block_start ca \<le> block_start a" "block_end a \<le> block_end ca" by blast
      from cont b obtain cb where cb: "cb \<in> set ?out"
        "block_start cb \<le> block_start b" "block_end b \<le> block_end cb" by blast
      have nb: "block_start b < block_end b" using ne b by simp
      from separated_cases[OF sep ca(1) cb(1)]
      have "ca = cb"
      proof (elim disjE)
        assume "block_end ca < block_start cb"
        with ca cb t show ?thesis by linarith
      next
        assume "block_end cb < block_start ca"
        with ca cb t nb show ?thesis by linarith
      qed
      with ca cb t show "\<exists>c\<in>set ?out.
            block_start c \<le> min (block_start a) (block_start b)
          \<and> max (block_end a) (block_end b) \<le> block_end c"
        by (intro bexI[of _ ca]) simp_all
    qed
    have c6: "\<forall>a b. blocks = [a, b] \<and> block_start a \<le> block_start b \<and> block_end a \<ge> block_start b \<longrightarrow>
         map (\<lambda>c. (block_start c, block_end c)) ?out
           = [(min (block_start a) (block_start b), max (block_end a) (block_end b))]"
      by (simp add: mergeBusyBlocks_def Let_def min_def max_def)
    from c1 c2 sep c4 c5 c6 show ?thesis by blast
  qed
qed

text \<open>
  Claim C4. For a slot with \<open>slotStart < slotEnd\<close>, busy blocks with \<open>start < end\<close> and
  non-negative buffers (in minutes), \<open>isSlotBusy\<close> is true exactly when the half-open
  interval \<open>[slotStart - bufBefore, slotEnd + bufAfter)\<close> meets the half-open interval
  of some block; with zero buffers a block that ends at the slot's start, or starts at the
  slot's end, does not conflict.
\<close>

theorem isSlotBusy_iff_intersects:
  "slotStart < slotEnd \<and> 0 \<le> bufBefore \<and> 0 \<le> bufAfter
   \<and> (\<forall>b\<in>set busyBlocks. block_start b < block_end b) \<longrightarrow>
     (isSlotBusy slotStart slotEnd busyBlocks bufBefore bufAfter
        \<longleftrightarrow> (\<exists>b\<in>set busyBlocks.
               {slotStart - bufBefore * 60000 ..< slotEnd + bufAfter * 60000}
                 \<inter> {block_start b ..< block_end b} \<noteq> {}))
   \<and> (\<forall>b\<in>set busyBlocks. block_end b = slotStart \<or> block_start b = slotEnd \<longrightarrow>
          \<not> isSlotBusy slotStart slotEnd [b] 0 0)"
proof (rule impI)
  assume hyp: "slotStart < slotEnd \<and> 0 \<le> bufBefore \<and> 0 \<le> bufAfter
   \<and> (\<forall>b\<in>set busyBlocks. block_start b < block_end b)"
  then have h: "slotStart < slotEnd" "0 \<le> bufBefore" "0 \<le> bufAfter"
    "\<forall>b\<in>set busyBlocks. block_start b < block_end b" by simp_all
  let ?s = "slotStart - bufBefore * 60000" and ?e = "slotEnd + bufAfter * 60000"
  have se: "?s < ?e" using h(1-3) by (simp add: add_strict_increasing2 diff_less_eq add.commute add_strict_increasing)
  have one: "\<And>b::BusyBlock. block_start b < block_end b \<Longrightarrow>
     areIntervalsOverlapping (?s, ?e) (block_start b, block_end b)
       \<longleftrightarrow> {?s ..< ?e} \<inter> {block_start b ..< block_end b} \<noteq> {}"
  proof -
    fix b :: BusyBlock assume nb: "block_start b < block_end b"
    have "{?s ..< ?e} \<inter> {block_start b ..< block_end b}
            = {max ?s (block_start b) ..< min ?e (block_end b)}"
      by (rule Int_atLeastLessThan)
    moreover have "{max ?s (block_start b) ..< min ?e (block_end b)} \<noteq> {}
       \<longleftrightarrow> max ?s (block_start b) < min ?e (block_end b)"
      by (simp only: atLeastLessThan_empty_iff not_not)
    moreover have "max ?s (block_start b) < min ?e (block_end b)
       \<longleftrightarrow> ?s < block_end b \<and> block_start b < ?e" using se nb by auto
    moreover have "areIntervalsOverlapping (?s, ?e) (block_start b, block_end b)
       \<longleftrightarrow> ?s < block_end b \<and> block_start b < ?e"
      using se nb by (simp add: areIntervalsOverlapping_def Let_def min_def max_def)
    ultimately show "areIntervalsOverlapping (?s, ?e) (block_start b, block_end b)
       \<longleftrightarrow> {?s ..< ?e} \<inter> {block_start b ..< block_end b} \<noteq> {}" by presburger
  qed
  have a: "isSlotBusy slotStart slotEnd busyBlocks bufBefore bufAfter
        \<longleftrightarrow> (\<exists>b\<in>set busyBlocks. {?s ..< ?e} \<inter> {block_start b ..< block_end b} \<noteq> {})"
    using h(4) one by (simp add: isSlotBusy_def addMinutes_def Let_def list_ex_iff)
  have b: "\<forall>b\<in>set busyBlocks. block_end b = slotStart \<or> block_start b = slotEnd \<longrightarrow>
          \<not> isSlotBusy slotStart slotEnd [b] 0 0"
    using h(1,4) by (auto simp: isSlotBusy_def addMinutes_def Let_def areIntervalsOverlapping_def)
  from a b show "(isSlotBusy slotStart slotEnd busyBlocks bufBefore bufAfter
        \<longleftrightarrow> (\<exists>b\<in>set busyBlocks. {?s ..< ?e} \<inter> {block_start b ..< block_end b} \<noteq> {}))
   \<and> (\<forall>b\<in>set busyBlocks. block_end b = slotStart \<or> block_start b = slotEnd \<longrightarrow>
          \<not> isSlotBusy slotStart slotEnd [b] 0 0)" by blast
qed

theorem mergeBusyBlocks_correct_witness:
  "list_all (\<lambda>b. block_start b < block_end b) exampleBlocks
   \<and> sorted (map block_start (mergeBusyBlocks exampleBlocks))
   \<and> sorted_wrt (\<lambda>x y. cover x \<inter> cover y = {}) (mergeBusyBlocks exampleBlocks)
   \<and> (\<Union>b\<in>set (mergeBusyBlocks exampleBlocks). cover b) = (\<Union>b\<in>set exampleBlocks. cover b)"
proof -
  have h: "\<forall>b\<in>set exampleBlocks. block_start b < block_end b"
    by (simp add: exampleBlocks_def)
  from mergeBusyBlocks_correct[of exampleBlocks] h show ?thesis
    by (simp add: list_all_iff)
qed

theorem isSlotBusy_iff_intersects_witness:
  "(0::int) < 1800000 \<and> (0::int) \<le> 15 \<and> (0::int) \<le> 0
   \<and> list_all (\<lambda>b. block_start b < block_end b) exampleBlocks
   \<and> (isSlotBusy 0 1800000 exampleBlocks 15 0
        \<longleftrightarrow> (\<exists>b\<in>set exampleBlocks.
               {0 - 15 * 60000 ..< 1800000 + 0 * 60000}
                 \<inter> {block_start b ..< block_end b} \<noteq> {}))"
proof -
  have h: "(0::int) < 1800000 \<and> (0::int) \<le> 15 \<and> (0::int) \<le> 0
   \<and> (\<forall>b\<in>set exampleBlocks. block_start b < block_end b)"
    by (simp add: exampleBlocks_def)
  from isSlotBusy_iff_intersects[of 0 1800000 15 0 exampleBlocks] h show ?thesis
    by (simp add: list_all_iff)
qed

section \<open>Properties of the availability engine\<close>

lemma candLoop_returns:
  "0 < slotInterval' \<Longrightarrow> \<exists>r. candLoop cur wend dur slotInterval' acc = Some r"
proof (induction "nat (wend - addMinutes cur dur + 1)" arbitrary: cur acc rule: less_induct)
  case less
  show ?case
  proof (cases "isAfter (addMinutes cur dur) wend")
    case True
    then show ?thesis by (subst candLoop.simps) (simp add: Let_def)
  next
    case False
    have "nat (wend - addMinutes (addMinutes cur slotInterval') dur + 1)
            < nat (wend - addMinutes cur dur + 1)"
      using False less.prems by (simp add: isAfter_def addMinutes_def)
    from less.hyps[OF this less.prems]
    obtain r where "candLoop (addMinutes cur slotInterval') wend dur slotInterval'
                      (acc @ [(cur, addMinutes cur dur)]) = Some r" by blast
    with False show ?thesis by (subst candLoop.simps) (simp add: Let_def)
  qed
qed

lemma generateDayCandidateSlots_returns_iff:
  assumes "0 < slotInterval config"
  shows "(generateDayCandidateSlots E (toZonedTime E cur (timezone config)) (workingHours config)
            (duration config) (slotInterval config) (timezone config) \<noteq> None)
         = dayResolves E config cur"
proof (cases "find (\<lambda>wh. wh_day wh = getDay (toZonedTime E cur (timezone config))) (workingHours config)")
  case None
  then show ?thesis by (simp add: generateDayCandidateSlots_def dayResolves_def Let_def)
next
  case (Some dayConfig)
  let ?d = "toZonedTime E cur (timezone config)"
  show ?thesis
  proof (cases "workingTime E ?d (wh_start dayConfig)")
    case None
    with Some show ?thesis
      by (simp add: generateDayCandidateSlots_def dayResolves_def workingTime_def Let_def split_beta)
  next
    case s: (Some s)
    show ?thesis
    proof (cases "workingTime E ?d (wh_end dayConfig)")
      case None
      with Some s show ?thesis
        by (simp add: generateDayCandidateSlots_def dayResolves_def workingTime_def Let_def split_beta)
    next
      case e: (Some e)
      from candLoop_returns[OF assms]
      have "candLoop (fromZonedTime E s (timezone config)) (fromZonedTime E e (timezone config))
              (duration config) (slotInterval config) [] \<noteq> None" by blast
      with Some s e show ?thesis
        by (simp add: generateDayCandidateSlots_def dayResolves_def workingTime_def Let_def split_beta)
    qed
  qed
qed

lemma dayLoop_returns_iff:
  "0 < slotInterval config \<Longrightarrow>
   (dayLoop E config minB maxB merged effEnd cur acc \<noteq> None)
   = list_all (dayResolves E config) (visitedDays cur effEnd)"
proof (induction E config minB maxB merged effEnd cur acc rule: dayLoop.induct)
  case (1 E config minB maxB merged effEnd cur acc)
  show ?case
  proof (cases "isBefore cur (endOfDay effEnd)")
    case False
    then show ?thesis by simp
  next
    case True
    let ?g = "generateDayCandidateSlots E (toZonedTime E cur (timezone config))
                (workingHours config) (duration config) (slotInterval config) (timezone config)"
    show ?thesis
    proof (cases ?g)
      case None
      with generateDayCandidateSlots_returns_iff[OF "1.prems", of E cur]
      have "\<not> dayResolves E config cur" by simp
      with None True show ?thesis by simp
    next
      case (Some daySlots)
      with generateDayCandidateSlots_returns_iff[OF "1.prems", of E cur]
      have r: "dayResolves E config cur" by simp
      from "1.IH"[OF True Some "1.prems"] Some True r show ?thesis by simp
    qed
  qed
qed

lemma keepDaySlots_bounds:
  "s \<in> set (keepDaySlots config minB maxB merged daySlots) \<Longrightarrow>
   minB \<le> slot_start s \<and> slot_start s \<le> maxB"
  by (auto simp: keepDaySlots_def isBefore_def isAfter_def)

lemma dayLoop_bounds:
  "dayLoop E config minB maxB merged effEnd cur acc = Some slots \<Longrightarrow>
   \<forall>s\<in>set acc. minB \<le> slot_start s \<and> slot_start s \<le> maxB \<Longrightarrow>
   \<forall>s\<in>set slots. minB \<le> slot_start s \<and> slot_start s \<le> maxB"
proof (induction E config minB maxB merged effEnd cur acc rule: dayLoop.induct)
  case (1 E config minB maxB merged effEnd cur acc)
  show ?case
  proof (cases "isBefore cur (endOfDay effEnd)")
    case False
    with "1.prems" show ?thesis by simp
  next
    case True
    let ?g = "generateDayCandidateSlots E (toZonedTime E cur (timezone config))
                (workingHours config) (duration config) (slotInterval config) (timezone config)"
    from "1.prems"(1) True obtain daySlots where g: "?g = Some daySlots"
      by (auto split: option.splits)
    have rec: "dayLoop E config minB maxB merged effEnd (addDays cur 1)
                 (acc @ keepDaySlots config minB maxB merged daySlots) = Some slots"
      using "1.prems"(1) True g by simp
    have inv: "\<forall>s\<in>set (acc @ keepDaySlots config minB maxB merged daySlots).
                 minB \<le> slot_start s \<and> slot_start s \<le> maxB"
      using "1.prems"(2) keepDaySlots_bounds by auto
    from "1.IH"[OF True g rec inv] show ?thesis .
  qed
qed

lemma sameTables_refl [simp]: "sameTables w w"
  by (simp add: sameTables_def)

lemma sameTables_trans: "sameTables w w1 \<Longrightarrow> sameTables w1 w2 \<Longrightarrow> sameTables w w2"
  by (simp add: sameTables_def)

lemma sameTables_log [simp]: "sameTables w (w'\<lparr>consoleErrors := lg\<rparr>) = sameTables w w'"
  by (simp add: sameTables_def)

lemma sameTables_updateAccount [simp]: "sameTables w (updateAccount a f w') = sameTables w w'"
  by (simp add: sameTables_def updateAccount_def)

lemma getAuthenticatedClient_frame:
  "sameTables w (snd (getAuthenticatedClient E w a))"
  by (simp add: getAuthenticatedClient_def Let_def split: option.splits)

lemma getFreeBusy_frame:
  "sameTables w (snd (getFreeBusy E w a ids t1 t2))"
proof -
  obtain r w' where g: "getAuthenticatedClient E w a = (r, w')" by (cases "getAuthenticatedClient E w a")
  have "snd (getFreeBusy E w a ids t1 t2) = w'"
    using g by (simp add: getFreeBusy_def split: sum.splits option.splits)
  with getAuthenticatedClient_frame[of w E a] g show ?thesis by simp
qed

lemma fetchAll_frame:
  "sameTables w (snd (fetchAll E w groups t1 t2))"
proof (induction groups arbitrary: w)
  case Nil
  show ?case by simp
next
  case (Cons g groups)
  obtain a ids where g: "g = (a, ids)" by (cases g)
  obtain r w' where f: "getFreeBusy E w a ids t1 t2 = (r, w')" by (cases "getFreeBusy E w a ids t1 t2")
  from getFreeBusy_frame[of w E a ids t1 t2] f have w': "sameTables w w'" by simp
  define w1 where "w1 = (case r of Inl e \<Rightarrow> w'\<lparr>consoleErrors := consoleErrors w'
                            @ [''Error fetching free/busy for account '' @ a @ '':'']\<rparr> | Inr b \<Rightarrow> w')"
  have w1: "sameTables w w1"
    unfolding w1_def using w' by (cases r) simp_all
  have s: "snd (fetchAll E w (g # groups) t1 t2) = snd (fetchAll E w1 groups t1 t2)"
    unfolding g w1_def using f by (cases r) (simp_all add: split_beta)
  from sameTables_trans[OF w1 Cons.IH[of w1]] s show ?case by simp
qed

lemma getCompositeBusy_frame:
  "sameTables w (snd (getCompositeBusy E w u t1 t2))"
  using fetchAll_frame[of w E "groupByAccount (selectedCalendars w u) []" t1 t2]
  by (simp add: getCompositeBusy_def Let_def split_beta)

lemma isSlotAvailable_frame:
  "sameTables w (snd (isSlotAvailable E w eventTypeId start en))"
  using getCompositeBusy_frame[of w E]
  by (simp add: isSlotAvailable_def Let_def split_beta split: option.splits)

text \<open>
  Claim C5. For an existing event type, \<open>generateAvailableSlots\<close> works on the effective
  window \<open>start = max(rangeStart, now + minimumNotice minutes)\<close>,
  \<open>end = min(rangeEnd, now + schedulingWindow days)\<close>: the request range enters the result
  through this window only. When the window is empty (\<open>start > end\<close>) it returns the empty
  list and leaves the store alone. No returned slot starts before \<open>now + minimumNotice\<close> or
  after \<open>now + schedulingWindow\<close>. With a positive slot interval the generator returns a
  list exactly when the window is empty or, on every day of the window, the working hours
  that apply are valid dates; otherwise it does not return.
\<close>

theorem generateAvailableSlots_window:
  "getEventTypeConfig w eventTypeId = Some config \<longrightarrow>
     effectiveStartDate config (clock w) startDate
        = max startDate (clock w + minimumNotice config * 60000)
   \<and> effectiveEndDate config (clock w) endDate
        = min endDate (clock w + schedulingWindow config * 86400000)
   \<and> (\<forall>startDate' endDate'.
         max startDate' (clock w + minimumNotice config * 60000)
           = max startDate (clock w + minimumNotice config * 60000)
       \<and> min endDate' (clock w + schedulingWindow config * 86400000)
           = min endDate (clock w + schedulingWindow config * 86400000)
       \<longrightarrow> generateAvailableSlots E w eventTypeId startDate' endDate' tz
             = generateAvailableSlots E w eventTypeId startDate endDate tz)
   \<and> (max startDate (clock w + minimumNotice config * 60000)
         > min endDate (clock w + schedulingWindow config * 86400000)
       \<longrightarrow> generateAvailableSlots E w eventTypeId startDate endDate tz = Some (Inr [], w))
   \<and> (\<forall>slots w'. generateAvailableSlots E w eventTypeId startDate endDate tz = Some (Inr slots, w')
       \<longrightarrow> (\<forall>s\<in>set slots. clock w + minimumNotice config * 60000 \<le> slot_start s
                         \<and> slot_start s \<le> clock w + schedulingWindow config * 86400000))
   \<and> (0 < slotInterval config
       \<longrightarrow> (\<exists>slots w'. generateAvailableSlots E w eventTypeId startDate endDate tz
                          = Some (Inr slots, w'))
           = (max startDate (clock w + minimumNotice config * 60000)
                > min endDate (clock w + schedulingWindow config * 86400000)
              \<or> list_all (dayResolves E config)
                   (visitedDays
                      (startOfDay (max startDate (clock w + minimumNotice config * 60000)))
                      (min endDate (clock w + schedulingWindow config * 86400000)))))"
proof
  assume cfg: "getEventTypeConfig w eventTypeId = Some config"
  let ?minB = "clock w + minimumNotice config * 60000"
  let ?maxB = "clock w + schedulingWindow config * 86400000"
  have es: "\<And>sd. effectiveStartDate config (clock w) sd = max sd ?minB"
    by (simp add: effectiveStartDate_def Let_def isAfter_def addMinutes_def max_def)
  have ee: "\<And>ed. effectiveEndDate config (clock w) ed = min ed ?maxB"
    by (simp add: effectiveEndDate_def Let_def isBefore_def addDays_def min_def)
  have gen: "\<And>sd ed. generateAvailableSlots E w eventTypeId sd ed tz =
     (if max sd ?minB > min ed ?maxB then Some (Inr [], w)
      else (let (busyBlocks, w') = getCompositeBusy E w (userId config) (max sd ?minB) (min ed ?maxB);
                existingBookings =
                       filter (\<lambda>b. b_userId b = userId config
                                  \<and> (status b = CONFIRMED \<or> status b = PENDING)
                                  \<and> startTime b \<ge> max sd ?minB
                                  \<and> endTime b \<le> min ed ?maxB)
                         (bookings w');
                allBusyBlocks = busyBlocks
                       @ map (\<lambda>b. \<lparr>block_start = startTime b, block_end = endTime b,
                                   calendarId = ''bookings''\<rparr>) existingBookings;
                mergedBusyBlocks = mergeBusyBlocks allBusyBlocks
            in map_option (\<lambda>slots. (Inr slots, w'))
                      (dayLoop E config ?minB ?maxB mergedBusyBlocks (min ed ?maxB)
                         (startOfDay (max sd ?minB)) [])))"
    unfolding generateAvailableSlots_def cfg option.case Let_def es ee
    by (simp add: isAfter_def addMinutes_def addDays_def)
  have p3: "\<forall>startDate' endDate'.
         max startDate' ?minB = max startDate ?minB \<and> min endDate' ?maxB = min endDate ?maxB
       \<longrightarrow> generateAvailableSlots E w eventTypeId startDate' endDate' tz
             = generateAvailableSlots E w eventTypeId startDate endDate tz"
    unfolding gen by simp
  have p4: "max startDate ?minB > min endDate ?maxB
       \<longrightarrow> generateAvailableSlots E w eventTypeId startDate endDate tz = Some (Inr [], w)"
    unfolding gen by simp
  have p5: "\<forall>slots w'. generateAvailableSlots E w eventTypeId startDate endDate tz = Some (Inr slots, w')
       \<longrightarrow> (\<forall>s\<in>set slots. ?minB \<le> slot_start s \<and> slot_start s \<le> ?maxB)"
  proof (intro allI impI)
    fix slots w' assume g: "generateAvailableSlots E w eventTypeId startDate endDate tz = Some (Inr slots, w')"
    show "\<forall>s\<in>set slots. ?minB \<le> slot_start s \<and> slot_start s \<le> ?maxB"
    proof (cases "max startDate ?minB > min endDate ?maxB")
      case True
      with g have "slots = []" unfolding gen by simp
      then show ?thesis by simp
    next
      case False
      with g obtain merged where
        "dayLoop E config ?minB ?maxB merged (min endDate ?maxB) (startOfDay (max startDate ?minB)) []
           = Some slots"
        unfolding gen by (auto simp: Let_def split_beta)
      from dayLoop_bounds[OF this] show ?thesis by simp
    qed
  qed
  have p6: "0 < slotInterval config
       \<longrightarrow> (\<exists>slots w'. generateAvailableSlots E w eventTypeId startDate endDate tz
                          = Some (Inr slots, w'))
           = (max startDate ?minB > min endDate ?maxB
              \<or> list_all (dayResolves E config)
                   (visitedDays (startOfDay (max startDate ?minB)) (min endDate ?maxB)))"
  proof
    assume pos: "0 < slotInterval config"
    show "(\<exists>slots w'. generateAvailableSlots E w eventTypeId startDate endDate tz
                          = Some (Inr slots, w'))
           = (max startDate ?minB > min endDate ?maxB
              \<or> list_all (dayResolves E config)
                   (visitedDays (startOfDay (max startDate ?minB)) (min endDate ?maxB)))"
    proof (cases "max startDate ?minB > min endDate ?maxB")
      case True
      then show ?thesis unfolding gen by simp
    next
      case False
      have "\<And>merged. (\<exists>slots. dayLoop E config ?minB ?maxB merged (min endDate ?maxB)
                (startOfDay (max startDate ?minB)) [] = Some slots)
            = list_all (dayResolves E config)
                   (visitedDays (startOfDay (max startDate ?minB)) (min endDate ?maxB))"
        using dayLoop_returns_iff[OF pos, of E ?minB ?maxB] by simp
      with False show ?thesis unfolding gen by (simp add: Let_def split_beta)
    qed
  qed
  from es[of startDate] ee[of endDate] p3 p4 p5 p6
  show "effectiveStartDate config (clock w) startDate = max startDate ?minB
   \<and> effectiveEndDate config (clock w) endDate = min endDate ?maxB
   \<and> (\<forall>startDate' endDate'.
         max startDate' ?minB = max startDate ?minB \<and> min endDate' ?maxB = min endDate ?maxB
       \<longrightarrow> generateAvailableSlots E w eventTypeId startDate' endDate' tz
             = generateAvailableSlots E w eventTypeId startDate endDate tz)
   \<and> (max startDate ?minB > min endDate ?maxB
       \<longrightarrow> generateAvailableSlots E w eventTypeId startDate endDate tz = Some (Inr [], w))
   \<and> (\<forall>slots w'. generateAvailableSlots E w eventTypeId startDate endDate tz = Some (Inr slots, w')
       \<longrightarrow> (\<forall>s\<in>set slots. ?minB \<le> slot_start s \<and> slot_start s \<le> ?maxB))
   \<and> (0 < slotInterval config
       \<longrightarrow> (\<exists>slots w'. generateAvailableSlots E w eventTypeId startDate endDate tz
                          = Some (Inr slots, w'))
           = (max startDate ?minB > min endDate ?maxB
              \<or> list_all (dayResolves E config)
                   (visitedDays (startOfDay (max startDate ?minB)) (min endDate ?maxB))))"
    by blast
qed



lemma example_config:
  "getEventTypeConfig (exampleWorld rows store) ''evt_intro'' =
     Some \<lparr>userId = ''host_1'', duration = 30, bufferBefore = 0, bufferAfter = 0,
           minimumNotice = 240, schedulingWindow = 30, slotInterval = 15,
           workingHours = [\<lparr>wh_day = 1, wh_start = ''09:00'', wh_end = ''10:30''\<rparr>],
           treatTentativeAsBusy = True, includeAllDayEvents = True, timezone = ''UTC''\<rparr>"
  by (simp add: getEventTypeConfig_def exampleWorld_def exampleEventType_def)

lemma example_selected:
  "selectedCalendars (exampleWorld rows store) ''host_1'' =
     [\<lparr>cal_id = ''cal_1'', cal_userId = ''host_1'', connectedAccountId = ''acc_1'',
                     googleCalendarId = ''primary'', isSelected = True\<rparr>]"
  by (simp add: selectedCalendars_def exampleWorld_def)

lemma example_groups:
  "groupByAccount (selectedCalendars (exampleWorld rows store) ''host_1'') [] = [(''acc_1'', [''primary''])]"
  by (simp add: example_selected Let_def)

lemma example_client:
  "getAuthenticatedClient exampleEnv (exampleWorld rows store) ''acc_1'' =
     (Inr \<lparr>access_token = Some ''at'', refresh_token = Some ''rt'', expiry_date = Some 1705363200000\<rparr>,
      exampleWorld rows store)"
  by (simp add: getAuthenticatedClient_def exampleWorld_def exampleEnv_def Let_def)

lemma example_freebusy:
  "getFreeBusy exampleEnv (exampleWorld rows store) ''acc_1'' ids t1 t2 = (Inr [], exampleWorld rows store)"
  by (simp add: getFreeBusy_def example_client) (simp add: exampleEnv_def)

lemma example_busy:
  "getCompositeBusy exampleEnv (exampleWorld rows store) ''host_1'' t1 t2 = ([], exampleWorld rows store)"
  by (simp add: getCompositeBusy_def example_groups example_freebusy Let_def)

lemma fmt_0930: "formatHHmm 1705311000000 = ''09:30''"
  by (simp add: formatHHmm_def pad2_def digitChar_def)

lemma fmt_1000: "formatHHmm 1705312800000 = ''10:00''"
  by (simp add: formatHHmm_def pad2_def digitChar_def)

lemma day_0930: "getDay 1705311000000 = 1"
  by (simp add: getDay_def)

lemma example_tz: "toZonedTime exampleEnv d tz = d" "fromZonedTime exampleEnv d tz = d"
  by (simp_all add: exampleEnv_def)

lemma example_rows: "bookings (exampleWorld rows store) = rows" "clock (exampleWorld rows store) = 1705296600000"
  by (simp_all add: exampleWorld_def)


lemma example_unavailable_confirmed:
  "isSlotAvailable exampleEnv (exampleWorld [exampleBooking CONFIRMED] store) ''evt_intro''
      1705311000000 1705312800000 = (False, exampleWorld [exampleBooking CONFIRMED] store)"
  unfolding isSlotAvailable_def example_config option.case
  by (simp add: Let_def example_busy example_tz example_rows fmt_0930 fmt_1000 day_0930
        isBefore_def isAfter_def addMinutes_def addDays_def isSlotBusy_def exampleBooking_def
        overlapsExisting_def)

lemma parse_0900: "parseTimeString exampleEnv ''09:00'' = (Finite 9, Finite 0)"
  by (simp add: parseTimeString_def exampleEnv_def stringToNumber_def trimWhiteSpace_def isStrWhiteSpace_def
        unsignedDecimalLiteral_def isDecimalDigit_def digitOf_def exponentPart_def scaleByTen_def
        Let_def)

lemma parse_1030: "parseTimeString exampleEnv ''10:30'' = (Finite 10, Finite 30)"
  by (simp add: parseTimeString_def exampleEnv_def stringToNumber_def trimWhiteSpace_def isStrWhiteSpace_def
        unsignedDecimalLiteral_def isDecimalDigit_def digitOf_def exponentPart_def scaleByTen_def
        Let_def)

lemma working_0900: "workingTime exampleEnv 1705276800000 ''09:00'' = Some 1705309200000"
  by (simp add: workingTime_def parse_0900 startOfDay_def setHours_def setMinutes_def
        timeClip_def trunc_def)

lemma working_1030: "workingTime exampleEnv 1705276800000 ''10:30'' = Some 1705314600000"
  by (simp add: workingTime_def parse_1030 startOfDay_def setHours_def setMinutes_def
        timeClip_def trunc_def)

lemma example_monday:
  "generateDayCandidateSlots exampleEnv 1705276800000
      [\<lparr>wh_day = 1, wh_start = ''09:00'', wh_end = ''10:30''\<rparr>] 30 15 ''UTC''
   = Some [(1705309200000, 1705311000000), (1705310100000, 1705311900000),
           (1705311000000, 1705312800000), (1705311900000, 1705313700000),
           (1705312800000, 1705314600000)]"
  using working_0900 working_1030
  by (simp add: generateDayCandidateSlots_def Let_def getDay_def workingTime_def split_beta
        example_tz candLoop.simps addMinutes_def isAfter_def)

lemma example_tuesday:
  "generateDayCandidateSlots exampleEnv 1705363200000
      [\<lparr>wh_day = 1, wh_start = ''09:00'', wh_end = ''10:30''\<rparr>] 30 15 ''UTC''
   = Some []"
  by (simp add: generateDayCandidateSlots_def Let_def getDay_def)

lemma example_generate:
  "generateAvailableSlots exampleEnv (exampleWorld [exampleBooking CONFIRMED] store) ''evt_intro''
      1705276800000 1705363200000 ''UTC''
   = Some (Inr [\<lparr>slot_start = 1705311000000, slot_end = 1705312800000, available = True\<rparr>,
                \<lparr>slot_start = 1705311900000, slot_end = 1705313700000, available = True\<rparr>,
                \<lparr>slot_start = 1705312800000, slot_end = 1705314600000, available = True\<rparr>],
           exampleWorld [exampleBooking CONFIRMED] store)"
  unfolding generateAvailableSlots_def example_config option.case
  by (simp add: Let_def example_busy example_tz example_rows effectiveStartDate_def
        effectiveEndDate_def isBefore_def isAfter_def addMinutes_def addDays_def
        exampleBooking_def mergeBusyBlocks_def startOfDay_def endOfDay_def
        dayLoop.simps example_monday example_tuesday keepDaySlots_def isSlotBusy_def)

lemma example_generate_no_bookings:
  "generateAvailableSlots exampleEnv (exampleWorld [] store) ''evt_intro''
      1705276800000 1705363200000 ''UTC''
   = Some (Inr [\<lparr>slot_start = 1705311000000, slot_end = 1705312800000, available = True\<rparr>,
                \<lparr>slot_start = 1705311900000, slot_end = 1705313700000, available = True\<rparr>,
                \<lparr>slot_start = 1705312800000, slot_end = 1705314600000, available = True\<rparr>],
           exampleWorld [] store)"
  unfolding generateAvailableSlots_def example_config option.case
  by (simp add: Let_def example_busy example_tz example_rows effectiveStartDate_def
        effectiveEndDate_def isBefore_def isAfter_def addMinutes_def addDays_def
        mergeBusyBlocks_def startOfDay_def endOfDay_def
        dayLoop.simps example_monday example_tuesday keepDaySlots_def isSlotBusy_def)

lemma example_visited:
  "visitedDays 1705276800000 1705363200000 = [1705276800000, 1705363200000]"
  by (simp add: visitedDays.simps isBefore_def endOfDay_def addDays_def)

lemma example_resolves:
  "list_all (dayResolves exampleEnv exampleConfig) [1705276800000, 1705363200000]"
  by (simp add: dayResolves_def exampleConfig_def example_tz getDay_def Let_def
        working_0900 working_1030)

lemma example_signed_hours:
  "parseTimeString exampleEnv ''+9:30'' = (Finite 9, Finite 30)"
  by (simp add: parseTimeString_def exampleEnv_def stringToNumber_def trimWhiteSpace_def isStrWhiteSpace_def
        unsignedDecimalLiteral_def isDecimalDigit_def digitOf_def exponentPart_def scaleByTen_def
        Let_def)

lemma example_unparsed_hours:
  "generateDayCandidateSlots exampleEnv 1705276800000
      [\<lparr>wh_day = 1, wh_start = ''ab:cd'', wh_end = ''10:30''\<rparr>] 30 15 ''UTC''
   = None"
  by (simp add: generateDayCandidateSlots_def getDay_def parseTimeString_def
        exampleEnv_def stringToNumber_def trimWhiteSpace_def isStrWhiteSpace_def
        unsignedDecimalLiteral_def isDecimalDigit_def digitOf_def exponentPart_def scaleByTen_def
        Let_def setHours_def setMinutes_def)

section \<open>Properties of the free/busy provider\<close>





























section \<open>Properties of the booking commit\<close>

lemma createCalendarEvent_frame:
  "sameTables w (snd (createCalendarEvent E w a calId ev))"
proof -
  obtain r w' where g: "getAuthenticatedClient E w a = (r, w')" by (cases "getAuthenticatedClient E w a")
  have "snd (createCalendarEvent E w a calId ev) = w'"
    using g by (simp add: createCalendarEvent_def split: sum.splits option.splits prod.splits)
  with getAuthenticatedClient_frame[of w E a] g show ?thesis by simp
qed


lemma POST_passes_gates:
  assumes "success (fst (rateLimit (clock w) (rateLimitStore w) (''booking:'' @ req_ip request) RATE_LIMITS_booking))"
    and "req_body request = Some d" and "bookingSchema E d"
  shows "POST E w request =
     (let w0 = w\<lparr>rateLimitStore := snd (rateLimit (clock w) (rateLimitStore w)
                                          (''booking:'' @ req_ip request) RATE_LIMITS_booking)\<rparr>
      in case find (\<lambda>b. idempotencyKey b = Some (requestIdempotencyKey E (clock w) d)) (bookings w) of
           Some existingBooking \<Rightarrow>
             (json 200 (BookingBody (uid existingBooking) (startTime existingBooking)
                          (endTime existingBooking) (meetingUrl existingBooking)), w0)
         | None \<Rightarrow> commitBooking E w0 d (requestIdempotencyKey E (clock w) d)
                     (parseDate E (in_startTime d)))"
  using assms by (simp add: POST_def Let_def split_beta)

lemma afterInsert_response:
  "\<exists>mUrl. fst (afterInsert E w eventType d start en cal booking)
            = json 201 (BookingBody (uid booking) (startTime booking) (endTime booking) mUrl)"
  by (intro exI) (simp add: afterInsert_def Let_def split_beta)

lemma afterInsert_rows:
  "\<exists>g. (\<forall>b. status (g b) = status b \<and> uid (g b) = uid b \<and> startTime (g b) = startTime b
             \<and> endTime (g b) = endTime b \<and> b_id (g b) = b_id b
             \<and> idempotencyKey (g b) = idempotencyKey b \<and> b_userId (g b) = b_userId b)
       \<and> bookings (snd (afterInsert E w eventType d start en cal booking)) = map g (bookings w)"
proof -
  let ?c = "createCalendarEvent E w (connectedAccountId cal) (googleCalendarId cal)
              (calendarEventData eventType d start en)"
  obtain r w' where c: "?c = (r, w')" by (cases ?c)
  from createCalendarEvent_frame[of w E "connectedAccountId cal" "googleCalendarId cal"
         "calendarEventData eventType d start en"] c
  have bk: "bookings w' = bookings w" by (simp add: sameTables_def)
  show ?thesis
  proof (cases r)
    case (Inl e)
    have "bookings (snd (afterInsert E w eventType d start en cal booking)) = map (\<lambda>b. b) (bookings w)"
      using c Inl bk by (simp add: afterInsert_def Let_def split_beta)
    then show ?thesis by (intro exI[of _ "\<lambda>b. b"]) simp
  next
    case (Inr p)
    obtain eventId url where p: "p = (eventId, url)" by (cases p)
    let ?g = "\<lambda>b. if b_id b = b_id booking
                                 then b\<lparr>googleEventId := Some eventId,
                                        b_googleCalendarId := Some (googleCalendarId cal),
                                        meetingUrl := (case url of None \<Rightarrow> meetingUrl b
                                                       | Some u \<Rightarrow> Some u)\<rparr>
                                 else b"
    have "bookings (snd (afterInsert E w eventType d start en cal booking)) = map ?g (bookings w)"
      using c Inr p bk by (simp add: afterInsert_def recordCalendarEvent_def Let_def split_beta)
    then show ?thesis by (intro exI[of _ ?g]) simp
  qed
qed




text \<open>
  Claim C8. When the request reaches the insert and the insert succeeds, then whatever the
  calendar provider and the mailer do afterwards (\<open>E\<close> is arbitrary: event creation, token
  refresh and both emails may fail), the response has status 201 and carries the new
  booking's uid, start and end, and the table holds the earlier rows with their status and
  the new row with status PENDING if the event type requires confirmation, else CONFIRMED.
\<close>

theorem POST_side_effect_failures_keep_booking:
  "success (fst (rateLimit (clock w) (rateLimitStore w) (''booking:'' @ req_ip request) RATE_LIMITS_booking))
   \<and> req_body request = Some d \<and> bookingSchema E d
   \<and> idemKey = requestIdempotencyKey E (clock w) d
   \<and> find (\<lambda>b. idempotencyKey b = Some idemKey) (bookings w) = None
   \<and> find (\<lambda>et. et_id et = in_eventTypeId d) (eventTypes w) = Some eventType
   \<and> et_isActive eventType
   \<and> w0 = w\<lparr>rateLimitStore := snd (rateLimit (clock w) (rateLimitStore w)
                                        (''booking:'' @ req_ip request) RATE_LIMITS_booking)\<rparr>
   \<and> start = parseDate E (in_startTime d)
   \<and> en = addMinutes start (et_duration eventType)
   \<and> isSlotAvailable E w0 (in_eventTypeId d) start en = (True, w1)
   \<and> filter (\<lambda>a. etc_eventTypeId a = et_id eventType \<and> isDestination a)
        (eventTypeCalendars w1) = assoc # rest
   \<and> find (\<lambda>c. cal_id c = etc_calendarId assoc) (calendars w1) = Some cal
   \<and> \<not> uniqueConstraintFails E (bookings w1) (newBookingData E eventType d idemKey start en)
   \<longrightarrow>
     http_status (fst (POST E w request)) = 201
   \<and> (\<exists>mUrl. http_body (fst (POST E w request)) = BookingBody (uuidv4 E) start en mUrl)
   \<and> map status (bookings (snd (POST E w request)))
        = map status (bookings w) @ [if et_requiresConfirmation eventType then PENDING else CONFIRMED]
   \<and> map uid (bookings (snd (POST E w request))) = map uid (bookings w) @ [uuidv4 E]
   \<and> map startTime (bookings (snd (POST E w request))) = map startTime (bookings w) @ [start]
   \<and> map endTime (bookings (snd (POST E w request))) = map endTime (bookings w) @ [en]"
proof (intro impI, elim conjE)
  assume g: "success (fst (rateLimit (clock w) (rateLimitStore w) (''booking:'' @ req_ip request) RATE_LIMITS_booking))"
    "req_body request = Some d" "bookingSchema E d"
    and k: "idemKey = requestIdempotencyKey E (clock w) d"
    and nohit: "find (\<lambda>b. idempotencyKey b = Some idemKey) (bookings w) = None"
    and et: "find (\<lambda>et. et_id et = in_eventTypeId d) (eventTypes w) = Some eventType"
      "et_isActive eventType"
    and w0: "w0 = w\<lparr>rateLimitStore := snd (rateLimit (clock w) (rateLimitStore w)
                                        (''booking:'' @ req_ip request) RATE_LIMITS_booking)\<rparr>"
    and st: "start = parseDate E (in_startTime d)" "en = addMinutes start (et_duration eventType)"
    and av: "isSlotAvailable E w0 (in_eventTypeId d) start en = (True, w1)"
    and dest: "filter (\<lambda>a. etc_eventTypeId a = et_id eventType \<and> isDestination a)
        (eventTypeCalendars w1) = assoc # rest"
      "find (\<lambda>c. cal_id c = etc_calendarId assoc) (calendars w1) = Some cal"
    and uq: "\<not> uniqueConstraintFails E (bookings w1) (newBookingData E eventType d idemKey start en)"
  let ?row = "newBookingData E eventType d idemKey start en"
  let ?w2 = "w1\<lparr>bookings := bookings w1 @ [?row]\<rparr>"
  have post: "POST E w request = commitBooking E w0 d idemKey start"
    using POST_passes_gates[OF g] nohit k w0 st by (simp add: Let_def)
  have bk1: "bookings w1 = bookings w"
    using isSlotAvailable_frame[of w0 E "in_eventTypeId d" start en] av w0
    by (simp add: sameTables_def)
  have et0: "find (\<lambda>et. et_id et = in_eventTypeId d) (eventTypes w0) = Some eventType"
    using et w0 by simp
  have commit: "commitBooking E w0 d idemKey start = afterInsert E ?w2 eventType d start en cal ?row"
    unfolding commitBooking_def et0 option.case st
    using et(2) av[unfolded st] dest[unfolded st] uq[unfolded st]
    by (simp add: Let_def bookingCreate_def)
  from afterInsert_response[of E ?w2 eventType d start en cal ?row]
  obtain mUrl where r: "fst (afterInsert E ?w2 eventType d start en cal ?row)
      = json 201 (BookingBody (uid ?row) (startTime ?row) (endTime ?row) mUrl)" by blast
  from afterInsert_rows[of E ?w2 eventType d start en cal ?row]
  obtain f where f: "\<forall>b. status (f b) = status b \<and> uid (f b) = uid b \<and> startTime (f b) = startTime b
             \<and> endTime (f b) = endTime b \<and> b_id (f b) = b_id b
             \<and> idempotencyKey (f b) = idempotencyKey b \<and> b_userId (f b) = b_userId b"
    and rows: "bookings (snd (afterInsert E ?w2 eventType d start en cal ?row)) = map f (bookings ?w2)"
    by blast
  have c1: "http_status (fst (POST E w request)) = 201"
    unfolding post commit r by (simp add: json_def)
  have c2: "\<exists>mUrl. http_body (fst (POST E w request)) = BookingBody (uuidv4 E) start en mUrl"
    unfolding post commit r by (simp add: json_def newBookingData_def)
  have c3: "map status (bookings (snd (POST E w request)))
        = map status (bookings w) @ [if et_requiresConfirmation eventType then PENDING else CONFIRMED]"
    unfolding post commit rows using f bk1 by (simp add: newBookingData_def)
  have c4: "map uid (bookings (snd (POST E w request))) = map uid (bookings w) @ [uuidv4 E]"
    unfolding post commit rows using f bk1 by (simp add: newBookingData_def)
  have c5: "map startTime (bookings (snd (POST E w request))) = map startTime (bookings w) @ [start]"
    unfolding post commit rows using f bk1 by (simp add: newBookingData_def)
  have c6: "map endTime (bookings (snd (POST E w request))) = map endTime (bookings w) @ [en]"
    unfolding post commit rows using f bk1 by (simp add: newBookingData_def)
  from c1 c2 c3 c4 c5 c6
  show "http_status (fst (POST E w request)) = 201
   \<and> (\<exists>mUrl. http_body (fst (POST E w request)) = BookingBody (uuidv4 E) start en mUrl)
   \<and> map status (bookings (snd (POST E w request)))
        = map status (bookings w) @ [if et_requiresConfirmation eventType then PENDING else CONFIRMED]
   \<and> map uid (bookings (snd (POST E w request))) = map uid (bookings w) @ [uuidv4 E]
   \<and> map startTime (bookings (snd (POST E w request))) = map startTime (bookings w) @ [start]
   \<and> map endTime (bookings (snd (POST E w request))) = map endTime (bookings w) @ [en]"
    by blast
qed

lemma POST_idempotent_hit:
  assumes "success (fst (rateLimit (clock w) (rateLimitStore w) (''booking:'' @ req_ip request) RATE_LIMITS_booking))"
    and "req_body request = Some d" and "bookingSchema E d"
    and "find (\<lambda>b. idempotencyKey b = Some (requestIdempotencyKey E (clock w) d)) (bookings w) = Some prior"
  shows "POST E w request =
           (json 200 (BookingBody (uid prior) (startTime prior) (endTime prior) (meetingUrl prior)),
            w\<lparr>rateLimitStore := snd (rateLimit (clock w) (rateLimitStore w)
                                        (''booking:'' @ req_ip request) RATE_LIMITS_booking)\<rparr>)"
  using POST_passes_gates[OF assms(1-3)] assms(4) by (simp add: Let_def)




text \<open>
  Claim C10, as amended. For a request that passes the rate limiter and validation and
  whose key (supplied or derived) is the key of a stored booking, the handler returns that
  booking with status 200 and changes nothing but the rate limiter's map. No hypothesis
  is made on the stored booking's status or on the event type: the response is the same
  whatever the event types, calendars, accounts and destination links of the store are,
  so it precedes the loading of the event type, the active check and the availability
  check.
\<close>

theorem POST_idempotency_before_event_type:
  "success (fst (rateLimit (clock w) (rateLimitStore w) (''booking:'' @ req_ip request) RATE_LIMITS_booking))
   \<and> req_body request = Some d \<and> bookingSchema E d
   \<and> find (\<lambda>b. idempotencyKey b = Some (requestIdempotencyKey E (clock w) d)) (bookings w) = Some prior
   \<longrightarrow>
     POST E w request =
        (json 200 (BookingBody (uid prior) (startTime prior) (endTime prior) (meetingUrl prior)),
         w\<lparr>rateLimitStore := snd (rateLimit (clock w) (rateLimitStore w)
                                     (''booking:'' @ req_ip request) RATE_LIMITS_booking)\<rparr>)
   \<and> bookings (snd (POST E w request)) = bookings w
   \<and> (\<forall>ets cals accs assocs.
         fst (POST E (w\<lparr>eventTypes := ets, calendars := cals, connectedAccounts := accs,
                         eventTypeCalendars := assocs\<rparr>) request)
           = fst (POST E w request))"
proof (intro impI, elim conjE)
  assume g: "success (fst (rateLimit (clock w) (rateLimitStore w) (''booking:'' @ req_ip request) RATE_LIMITS_booking))"
    "req_body request = Some d" "bookingSchema E d"
    and hit: "find (\<lambda>b. idempotencyKey b = Some (requestIdempotencyKey E (clock w) d)) (bookings w) = Some prior"
  note p = POST_idempotent_hit[OF g hit]
  have q: "\<And>ets cals accs assocs.
         fst (POST E (w\<lparr>eventTypes := ets, calendars := cals, connectedAccounts := accs,
                         eventTypeCalendars := assocs\<rparr>) request)
           = json 200 (BookingBody (uid prior) (startTime prior) (endTime prior) (meetingUrl prior))"
  proof -
    fix ets cals accs assocs
    let ?w = "w\<lparr>eventTypes := ets, calendars := cals, connectedAccounts := accs,
                         eventTypeCalendars := assocs\<rparr>"
    have g': "success (fst (rateLimit (clock ?w) (rateLimitStore ?w) (''booking:'' @ req_ip request) RATE_LIMITS_booking))"
      using g(1) by simp
    have hit': "find (\<lambda>b. idempotencyKey b = Some (requestIdempotencyKey E (clock ?w) d)) (bookings ?w) = Some prior"
      using hit by simp
    from POST_idempotent_hit[OF g' g(2,3) hit']
    show "fst (POST E ?w request)
           = json 200 (BookingBody (uid prior) (startTime prior) (endTime prior) (meetingUrl prior))"
      by simp
  qed
  show "POST E w request =
        (json 200 (BookingBody (uid prior) (startTime prior) (endTime prior) (meetingUrl prior)),
         w\<lparr>rateLimitStore := snd (rateLimit (clock w) (rateLimitStore w)
                                     (''booking:'' @ req_ip request) RATE_LIMITS_booking)\<rparr>)
   \<and> bookings (snd (POST E w request)) = bookings w
   \<and> (\<forall>ets cals accs assocs.
         fst (POST E (w\<lparr>eventTypes := ets, calendars := cals, connectedAccounts := accs,
                         eventTypeCalendars := assocs\<rparr>) request)
           = fst (POST E w request))"
    using p q by simp
qed

section \<open>The properties on the concrete store\<close>

lemma example_rate:
  "rateLimit 1705296600000 Map.empty (''booking:'' @ ''203.0.113.7'') RATE_LIMITS_booking
     = (\<lparr>success = True, remaining = 9, res_resetAt = 1705296660000\<rparr>, firstHit)"
  by (simp add: rateLimit_def RATE_LIMITS_booking_def Let_def firstHit_def)

lemma example_schema: "bookingSchema exampleEnv (exampleInput key ''bo@example.com'')"
  by (simp add: bookingSchema_def exampleEnv_def exampleInput_def maxLen_def)

lemma example_store: "(exampleWorld rows s)\<lparr>rateLimitStore := s'\<rparr> = exampleWorld rows s'"
  "rateLimitStore (exampleWorld rows s) = s"
  by (simp_all add: exampleWorld_def)

lemma example_eventType:
  "find (\<lambda>et. et_id et = ''evt_intro'') (eventTypes (exampleWorld rows s)) = Some exampleEventType"
  by (simp add: exampleWorld_def exampleEventType_def)



lemma example_available_empty:
  "isSlotAvailable exampleEnv (exampleWorld [] store) ''evt_intro''
      1705311000000 1705312800000 = (True, exampleWorld [] store)"
  unfolding isSlotAvailable_def example_config option.case
  by (simp add: Let_def example_busy example_tz example_rows fmt_0930 fmt_1000 day_0930
        isBefore_def isAfter_def addMinutes_def addDays_def isSlotBusy_def)

theorem POST_side_effect_failures_keep_booking_witness:
  "(\<forall>c cal ev. eventsInsert exampleEnv c cal ev = None)
   \<and> (\<forall>m. sendBookingConfirmationEmail exampleEnv m = False)
   \<and> http_status (fst (POST exampleEnv (exampleWorld [] Map.empty)
                      (exampleRequest (Some ''key-2'') ''bo@example.com''))) = 201
   \<and> map status (bookings (snd (POST exampleEnv (exampleWorld [] Map.empty)
                      (exampleRequest (Some ''key-2'') ''bo@example.com'')))) = [CONFIRMED]
   \<and> map uid (bookings (snd (POST exampleEnv (exampleWorld [] Map.empty)
                      (exampleRequest (Some ''key-2'') ''bo@example.com'')))) = [''3f0c9a52-uid'']"
proof -
  let ?w = "exampleWorld [] Map.empty"
  let ?rq = "exampleRequest (Some ''key-2'') ''bo@example.com''"
  let ?d = "exampleInput (Some ''key-2'') ''bo@example.com''"
  let ?assoc = "\<lparr>etc_eventTypeId = ''evt_intro'', etc_calendarId = ''cal_1'', isDestination = True\<rparr>"
  let ?cal = "\<lparr>cal_id = ''cal_1'', cal_userId = ''host_1'', connectedAccountId = ''acc_1'',
                     googleCalendarId = ''primary'', isSelected = True\<rparr>"
  have h: "success (fst (rateLimit (clock ?w) (rateLimitStore ?w) (''booking:'' @ req_ip ?rq) RATE_LIMITS_booking))
   \<and> req_body ?rq = Some ?d \<and> bookingSchema exampleEnv ?d
   \<and> ''key-2'' = requestIdempotencyKey exampleEnv (clock ?w) ?d
   \<and> find (\<lambda>b. idempotencyKey b = Some ''key-2'') (bookings ?w) = None
   \<and> find (\<lambda>et. et_id et = in_eventTypeId ?d) (eventTypes ?w) = Some exampleEventType
   \<and> et_isActive exampleEventType
   \<and> exampleWorld [] firstHit
        = ?w\<lparr>rateLimitStore := snd (rateLimit (clock ?w) (rateLimitStore ?w)
                                        (''booking:'' @ req_ip ?rq) RATE_LIMITS_booking)\<rparr>
   \<and> 1705311000000 = parseDate exampleEnv (in_startTime ?d)
   \<and> 1705312800000 = addMinutes 1705311000000 (et_duration exampleEventType)
   \<and> isSlotAvailable exampleEnv (exampleWorld [] firstHit)
        (in_eventTypeId ?d) 1705311000000 1705312800000
        = (True, exampleWorld [] firstHit)
   \<and> filter (\<lambda>a. etc_eventTypeId a = et_id exampleEventType \<and> isDestination a)
        (eventTypeCalendars (exampleWorld [] firstHit)) = ?assoc # []
   \<and> find (\<lambda>c. cal_id c = etc_calendarId ?assoc) (calendars (exampleWorld [] firstHit)) = Some ?cal
   \<and> \<not> uniqueConstraintFails exampleEnv (bookings (exampleWorld [] firstHit))
        (newBookingData exampleEnv exampleEventType ?d ''key-2'' 1705311000000 1705312800000)"
    using example_rate example_schema[of "Some ''key-2''"] example_eventType
      example_available_empty[of firstHit]
    by (simp add: example_rows example_store exampleRequest_def requestIdempotencyKey_def
          addMinutes_def)
      (simp add: exampleInput_def exampleEnv_def exampleEventType_def exampleWorld_def
         specUniqueConstraint_def)
  from POST_side_effect_failures_keep_booking[THEN mp, OF h] show ?thesis
    by (simp add: example_rows) (simp add: exampleEnv_def exampleEventType_def)
qed


lemma example_prior:
  "find (\<lambda>b. idempotencyKey b = Some ''key-1'') (bookings (exampleWorld [exampleBooking st] s))
     = Some (exampleBooking st)"
  by (simp add: example_rows exampleBooking_def)







theorem POST_idempotency_before_event_type_witness:
  "status (exampleBooking CANCELLED) = CANCELLED
   \<and> map et_isActive (eventTypes retiredWorld) = [False]
   \<and> fst (POST exampleEnv retiredWorld (exampleRequest (Some ''key-1'') ''bo@example.com''))
        = json 200 (BookingBody ''uid_1'' 1705310100000 1705311900000 None)
   \<and> bookings (snd (POST exampleEnv retiredWorld (exampleRequest (Some ''key-1'') ''bo@example.com'')))
        = [exampleBooking CANCELLED]"
proof -
  let ?rq = "exampleRequest (Some ''key-1'') ''bo@example.com''"
  let ?d = "exampleInput (Some ''key-1'') ''bo@example.com''"
  have cl: "clock retiredWorld = 1705296600000" "rateLimitStore retiredWorld = Map.empty"
    "bookings retiredWorld = [exampleBooking CANCELLED]"
    by (simp_all add: retiredWorld_def exampleWorld_def)
  have k: "requestIdempotencyKey exampleEnv (clock retiredWorld) ?d = ''key-1''"
    by (simp add: requestIdempotencyKey_def exampleInput_def)
  have h: "success (fst (rateLimit (clock retiredWorld) (rateLimitStore retiredWorld)
                       (''booking:'' @ req_ip ?rq) RATE_LIMITS_booking))
   \<and> req_body ?rq = Some ?d \<and> bookingSchema exampleEnv ?d
   \<and> find (\<lambda>b. idempotencyKey b = Some (requestIdempotencyKey exampleEnv (clock retiredWorld) ?d))
        (bookings retiredWorld) = Some (exampleBooking CANCELLED)"
    unfolding k using example_rate example_schema[of "Some ''key-1''"]
    by (simp add: cl exampleRequest_def) (simp add: exampleBooking_def)
  note t = POST_idempotency_before_event_type[THEN mp, OF h]
  from t have a: "fst (POST exampleEnv retiredWorld ?rq)
      = json 200 (BookingBody (uid (exampleBooking CANCELLED)) (startTime (exampleBooking CANCELLED))
                    (endTime (exampleBooking CANCELLED)) (meetingUrl (exampleBooking CANCELLED)))"
    by simp
  from t have b: "bookings (snd (POST exampleEnv retiredWorld ?rq)) = bookings retiredWorld"
    by blast
  from a b show ?thesis
    by (simp add: cl) (simp add: exampleBooking_def retiredWorld_def exampleEventType_def)
qed

text \<open>
  Claim C10 as stated fails: validation comes before the idempotency lookup, so a request
  whose key matches a stored booking but whose email is malformed is answered with 400.
\<close>

theorem POST_matching_key_invalid_input_counterexample:
  "find (\<lambda>b. idempotencyKey b = Some ''key-1'')
      (bookings (exampleWorld [exampleBooking CONFIRMED] Map.empty)) = Some (exampleBooking CONFIRMED)
   \<and> in_idempotencyKey (exampleInput (Some ''key-1'') ''bo.example.com'') = Some ''key-1''
   \<and> http_status (fst (POST exampleEnv (exampleWorld [exampleBooking CONFIRMED] Map.empty)
                          (exampleRequest (Some ''key-1'') ''bo.example.com''))) = 400"
proof -
  have "\<not> bookingSchema exampleEnv (exampleInput (Some ''key-1'') ''bo.example.com'')"
    by (simp add: bookingSchema_def exampleEnv_def exampleInput_def)
  then have "http_status (fst (POST exampleEnv (exampleWorld [exampleBooking CONFIRMED] Map.empty)
                          (exampleRequest (Some ''key-1'') ''bo.example.com''))) = 400"
    using example_rate
    by (simp add: POST_def Let_def split_beta example_rows example_store exampleRequest_def json_def)
  then show ?thesis by (simp add: example_prior) (simp add: exampleInput_def)
qed





theorem generateAvailableSlots_window_witness:
  "getEventTypeConfig (exampleWorld [] Map.empty) ''evt_intro'' = Some exampleConfig
   \<and> effectiveStartDate exampleConfig (clock (exampleWorld [] Map.empty)) 1705276800000 = 1705311000000
   \<and> effectiveEndDate exampleConfig (clock (exampleWorld [] Map.empty)) 1705363200000 = 1705363200000
   \<and> generateAvailableSlots exampleEnv (exampleWorld [] Map.empty) ''evt_intro''
        0 1705363200000 ''UTC''
     = generateAvailableSlots exampleEnv (exampleWorld [] Map.empty) ''evt_intro''
        1705276800000 1705363200000 ''UTC''
   \<and> generateAvailableSlots exampleEnv (exampleWorld [] Map.empty) ''evt_intro''
        1705363200000 1705276800000 ''UTC'' = Some (Inr [], exampleWorld [] Map.empty)
   \<and> generateAvailableSlots exampleEnv (exampleWorld [] Map.empty) ''evt_intro''
        1705276800000 1705363200000 ''UTC''
     = Some (Inr [\<lparr>slot_start = 1705311000000, slot_end = 1705312800000, available = True\<rparr>,
                  \<lparr>slot_start = 1705311900000, slot_end = 1705313700000, available = True\<rparr>,
                  \<lparr>slot_start = 1705312800000, slot_end = 1705314600000, available = True\<rparr>],
             exampleWorld [] Map.empty)
   \<and> list_all (\<lambda>s. 1705311000000 \<le> slot_start s \<and> slot_start s \<le> 1707888600000)
        [\<lparr>slot_start = 1705311000000, slot_end = 1705312800000, available = True\<rparr>,
         \<lparr>slot_start = 1705311900000, slot_end = 1705313700000, available = True\<rparr>,
         \<lparr>slot_start = 1705312800000, slot_end = 1705314600000, available = True\<rparr>]
   \<and> 0 < slotInterval exampleConfig
   \<and> list_all (dayResolves exampleEnv exampleConfig) (visitedDays 1705276800000 1705363200000)
   \<and> (\<exists>slots w'. generateAvailableSlots exampleEnv (exampleWorld [] Map.empty) ''evt_intro''
                     1705276800000 1705363200000 ''UTC'' = Some (Inr slots, w'))"
proof -
  let ?w = "exampleWorld [] Map.empty"
  let ?slots = "[\<lparr>slot_start = 1705311000000, slot_end = 1705312800000, available = True\<rparr>,
         \<lparr>slot_start = 1705311900000, slot_end = 1705313700000, available = True\<rparr>,
         \<lparr>slot_start = 1705312800000, slot_end = 1705314600000, available = True\<rparr>]"
  have h: "getEventTypeConfig ?w ''evt_intro'' = Some exampleConfig"
    by (simp add: example_config exampleConfig_def)
  note t = generateAvailableSlots_window[THEN mp, OF h]
  have minB: "clock ?w + minimumNotice exampleConfig * 60000 = 1705311000000"
    by (simp add: example_rows exampleConfig_def)
  have maxB: "clock ?w + schedulingWindow exampleConfig * 86400000 = 1707888600000"
    by (simp add: example_rows exampleConfig_def)
  have a: "effectiveStartDate exampleConfig (clock ?w) 1705276800000 = 1705311000000"
    using t[THEN conjunct1, of 1705276800000] by (simp add: minB)
  have b: "effectiveEndDate exampleConfig (clock ?w) 1705363200000 = 1705363200000"
    using t[THEN conjunct2, THEN conjunct1, of 1705363200000] by (simp add: maxB)
  have s: "max 0 (clock ?w + minimumNotice exampleConfig * 60000)
             = max 1705276800000 (clock ?w + minimumNotice exampleConfig * 60000)
         \<and> min 1705363200000 (clock ?w + schedulingWindow exampleConfig * 86400000)
             = min 1705363200000 (clock ?w + schedulingWindow exampleConfig * 86400000)"
    by (simp add: minB)
  have c0: "generateAvailableSlots exampleEnv ?w ''evt_intro'' 0 1705363200000 ''UTC''
             = generateAvailableSlots exampleEnv ?w ''evt_intro'' 1705276800000 1705363200000 ''UTC''"
    by (rule t[THEN conjunct2, THEN conjunct2, THEN conjunct1, THEN spec, THEN spec, THEN mp, OF s])
  have e: "max 1705363200000 (clock ?w + minimumNotice exampleConfig * 60000)
             > min 1705276800000 (clock ?w + schedulingWindow exampleConfig * 86400000)"
    by (simp add: minB maxB)
  have c: "generateAvailableSlots exampleEnv ?w ''evt_intro'' 1705363200000 1705276800000 ''UTC''
             = Some (Inr [], ?w)"
    by (rule t[THEN conjunct2, THEN conjunct2, THEN conjunct2, THEN conjunct1, THEN mp, OF e])
  have g: "generateAvailableSlots exampleEnv ?w ''evt_intro'' 1705276800000 1705363200000 ''UTC''
             = Some (Inr ?slots, ?w)"
    by (rule example_generate_no_bookings)
  have bnd: "\<forall>s\<in>set ?slots. clock ?w + minimumNotice exampleConfig * 60000 \<le> slot_start s
                \<and> slot_start s \<le> clock ?w + schedulingWindow exampleConfig * 86400000"
    by (rule t[THEN conjunct2, THEN conjunct2, THEN conjunct2, THEN conjunct2, THEN conjunct1,
               THEN spec, THEN spec, THEN mp, OF g])
  have d: "list_all (\<lambda>s. 1705311000000 \<le> slot_start s \<and> slot_start s \<le> 1707888600000) ?slots"
    using bnd unfolding minB maxB by (simp add: list_all_iff)
  have p: "0 < slotInterval exampleConfig" by (simp add: exampleConfig_def)
  have r: "list_all (dayResolves exampleEnv exampleConfig) (visitedDays 1705276800000 1705363200000)"
    unfolding example_visited by (rule example_resolves)
  have r': "max 1705276800000 (clock ?w + minimumNotice exampleConfig * 60000)
                > min 1705363200000 (clock ?w + schedulingWindow exampleConfig * 86400000)
              \<or> list_all (dayResolves exampleEnv exampleConfig)
                   (visitedDays
                      (startOfDay (max 1705276800000 (clock ?w + minimumNotice exampleConfig * 60000)))
                      (min 1705363200000 (clock ?w + schedulingWindow exampleConfig * 86400000)))"
    using r unfolding minB maxB by (simp add: startOfDay_def)
  have f: "\<exists>slots w'. generateAvailableSlots exampleEnv ?w ''evt_intro''
                     1705276800000 1705363200000 ''UTC'' = Some (Inr slots, w')"
    by (rule t[THEN conjunct2, THEN conjunct2, THEN conjunct2, THEN conjunct2, THEN conjunct2,
               THEN mp, OF p, THEN iffD2, OF r'])
  from h a b c0 c g d p r f show ?thesis by blast
qed



text \<open>
  Claim C2 fails on the code. The host has a CONFIRMED booking 09:15 to 09:45. Four hours
  of notice put the start of the effective window at 09:30, inside that booking; the
  generator's booking query keeps only bookings that lie wholly inside the window, so the
  booking is not in its busy set and the slot 09:30 to 10:00 is listed, while
  \<open>isSlotAvailable\<close>, which looks for overlap, rejects the same slot at the same clock on
  the same store.
\<close>

theorem generateAvailableSlots_lists_unbookable_slot:
  "generateAvailableSlots exampleEnv (exampleWorld [exampleBooking CONFIRMED] Map.empty) ''evt_intro''
      1705276800000 1705363200000 ''UTC''
   = Some (Inr [\<lparr>slot_start = 1705311000000, slot_end = 1705312800000, available = True\<rparr>,
                \<lparr>slot_start = 1705311900000, slot_end = 1705313700000, available = True\<rparr>,
                \<lparr>slot_start = 1705312800000, slot_end = 1705314600000, available = True\<rparr>],
           exampleWorld [exampleBooking CONFIRMED] Map.empty)
   \<and> isSlotAvailable exampleEnv (exampleWorld [exampleBooking CONFIRMED] Map.empty) ''evt_intro''
        1705311000000 1705312800000
     = (False, exampleWorld [exampleBooking CONFIRMED] Map.empty)"
  using example_generate[of Map.empty] example_unavailable_confirmed[of Map.empty] by simp

end
